theory Spec2Isabelle
  imports Main "HOL-Library.Sublist"
begin

section \<open>Common vocabulary\<close>

text \<open>
  Python strings are modelled as \<open>string\<close>, read as sequences of code points below 256.
  Python's unbounded integers are \<open>int\<close>. An exception that leaves a function is the
  \<open>Inl\<close> side of a sum.
\<close>

datatype error =
    TypeError
  | ValueError
  | KeyError
  | AttributeError
  | UnboundLocalError
  | QueryFailed

text \<open>
  \<open>QueryFailed\<close> stands for the plain \<open>Exception\<close> that \<open>call_api\<close> raises with a
  "GraphQL Query failed" message; \<open>UnboundLocalError\<close> is Python's subclass of \<open>NameError\<close>
  for a local variable read before any assignment.
\<close>

section \<open>Range-bisection enumerator (crawl\_repo.py)\<close>

subsection \<open>Query strings\<close>

definition digit_char :: "nat \<Rightarrow> char" where
  "digit_char d = char_of (48 + d)"

fun show_nat :: "nat \<Rightarrow> string" where
  "show_nat n = (if n < 10 then [digit_char n] else show_nat (n div 10) @ [digit_char (n mod 10)])"

declare show_nat.simps [simp del]

definition show_int :: "int \<Rightarrow> string" where
  "show_int i = (if i < 0 then CHR ''-'' # show_nat (nat (- i)) else show_nat (nat i))"

fun join :: "string \<Rightarrow> string list \<Rightarrow> string" where
  "join sep [] = []"
| "join sep [x] = x"
| "join sep (x # y # ys) = x @ sep @ join sep (y # ys)"

text \<open>
  \<open>make_query\<close>: the language part is added when the language is truthy (a non-empty
  string), then one of three star predicates, joined by a blank.
\<close>

definition make_query :: "string \<Rightarrow> int option \<Rightarrow> int option \<Rightarrow> string" where
  "make_query language stars_min stars_max =
     (let parts = (if language \<noteq> [] then [''language:'' @ language] else []);
          parts = (case (stars_min, stars_max) of
                     (Some lo, Some hi) \<Rightarrow> parts @ [''stars:'' @ show_int lo @ ''..'' @ show_int hi]
                   | (Some lo, None) \<Rightarrow> parts @ [''stars:>='' @ show_int lo]
                   | (None, Some hi) \<Rightarrow> parts @ [''stars:<='' @ show_int hi]
                   | (None, None) \<Rightarrow> parts)
      in join '' '' parts)"

subsection \<open>The worklist loop\<close>

text \<open>
  A queue entry is the pair \<open>(s_min, s_max)\<close> of the source; \<open>None\<close> is the open upper end.
\<close>

type_synonym search_range = "int \<times> int option"

fun range_set :: "search_range \<Rightarrow> int set" where
  "range_set (lo, None) = {lo..}"
| "range_set (lo, Some hi) = {lo..hi}"

text \<open>The value bound to \<open>mid\<close> in the branch taken for the range.\<close>

fun midpoint :: "int \<Rightarrow> int option \<Rightarrow> int" where
  "midpoint s_min None = s_min + 5000"
| "midpoint s_min (Some s_max) = (s_min + s_max) div 2"

text \<open>
  The ranges appended to the queue by the \<open>total_count > 1000\<close> branch (lines 108 to 121).
  Python's \<open>//\<close> is floor division, as \<open>div\<close> on \<open>int\<close>.
\<close>

fun split_range :: "int \<Rightarrow> int option \<Rightarrow> search_range list" where
  "split_range s_min None =
     (let mid = s_min + 5000
      in if mid \<le> s_min then [] else [(s_min, Some mid), (mid + 1, None)])"
| "split_range s_min (Some s_max) =
     (let mid = (s_min + s_max) div 2
      in if mid \<le> s_min then [] else [(s_min, Some mid), (mid + 1, Some s_max)])"

text \<open>
  One iteration of the \<open>while queue\<close> loop, after the pop. The two network calls are
  parameters: \<open>count\<close> answers \<open>get_total_count\<close> for a query and \<open>fetch\<close> answers
  \<open>fetch_repos_in_range\<close>; \<open>Inl\<close> is a raised exception. The result is the queue and the
  accumulated results after the iteration.
\<close>

definition bfs_step ::
  "(string \<Rightarrow> error + int) \<Rightarrow> (string \<Rightarrow> error + 'r list) \<Rightarrow> string \<Rightarrow>
   search_range \<Rightarrow> search_range list \<Rightarrow> 'r list \<Rightarrow> search_range list \<times> 'r list" where
  "bfs_step count fetch language r queue all_results =
     (case r of (s_min, s_max) \<Rightarrow>
        let query = make_query language (Some s_min) s_max
        in case count query of
             Inl e \<Rightarrow> (queue, all_results)
           | Inr total_count \<Rightarrow>
               if total_count = 0 then (queue, all_results)
               else if total_count > 1000 then (queue @ split_range s_min s_max, all_results)
               else (case fetch query of
                       Inr repos \<Rightarrow> (queue, all_results @ repos)
                     | Inl e \<Rightarrow> (queue @ [(s_min, s_max)], all_results)))"

text \<open>
  The loop itself. The remote answers may change between iterations, so both oracles take
  the iteration number. A failed fetch puts the range back, so the loop need not end: the
  model runs on fuel and \<open>None\<close> means the fuel ran out.
\<close>

fun bfs_loop ::
  "nat \<Rightarrow> (nat \<Rightarrow> string \<Rightarrow> error + int) \<Rightarrow> (nat \<Rightarrow> string \<Rightarrow> error + 'r list) \<Rightarrow> string \<Rightarrow>
   nat \<Rightarrow> search_range list \<Rightarrow> 'r list \<Rightarrow> 'r list option" where
  "bfs_loop fuel count fetch language t [] all_results = Some all_results"
| "bfs_loop 0 count fetch language t (r # queue) all_results = None"
| "bfs_loop (Suc fuel) count fetch language t (r # queue) all_results =
     (case bfs_step (count t) (fetch t) language r queue all_results of
        (queue', all_results') \<Rightarrow> bfs_loop fuel count fetch language (Suc t) queue' all_results')"

definition bfs_star_range ::
  "nat \<Rightarrow> (nat \<Rightarrow> string \<Rightarrow> error + int) \<Rightarrow> (nat \<Rightarrow> string \<Rightarrow> error + 'r list) \<Rightarrow> string \<Rightarrow>
   int option \<Rightarrow> int option \<Rightarrow> 'r list option" where
  "bfs_star_range fuel count fetch language stars_min stars_max =
     bfs_loop fuel count fetch language 0
       [(case stars_min of None \<Rightarrow> 0 | Some m \<Rightarrow> m, stars_max)] []"

section \<open>Rate-limited GraphQL client (utils.py, \<open>Repo.call_api\<close>)\<close>

text \<open>
  The \<open>x-ratelimit-remaining\<close> header of a response, by what \<open>int(...)\<close> makes of it:
  the header is missing (\<open>headers.get\<close> gives \<open>None\<close>), it is a string \<open>int\<close> rejects, or it
  is a string that \<open>int\<close> reads as a number. The raw value is a \<open>str\<close> or \<open>None\<close> in every case.
\<close>

datatype quota_header = Absent | Malformed | Remaining int

text \<open>
  A response whose body is JSON: its status code, the quota header, and the value under
  the \<open>"data"\<close> key of the body (\<open>None\<close> when the body has no such key).
\<close>

record 'd response =
  status_code :: int
  rate_remaining :: quota_header
  payload :: "'d option"

text \<open>
  What one \<open>requests.post\<close> does: it raises one of the connection exceptions the first
  \<open>except\<close> clause lists, it returns a response with a JSON body, or it returns a response
  whose body is not JSON, of which the status code and the quota header remain.
\<close>

datatype 'd post_result =
    ConnectionFailed
  | Replied "'d response"
  | RepliedNotJson int quota_header

text \<open>How a call ends: it returns a value, an exception leaves it, or it never returns.\<close>

datatype 'a outcome = Returned 'a | Raised error | Hangs

text \<open>\<open>int(response.headers.get('x-ratelimit-remaining'))\<close>.\<close>

fun int_of_header :: "quota_header \<Rightarrow> error + int" where
  "int_of_header Absent = Inl TypeError"
| "int_of_header Malformed = Inl ValueError"
| "int_of_header (Remaining rl) = Inr rl"

text \<open>
  The test \<open>rl > 0\<close> of the 403 branch (line 155), where \<open>rl\<close> is the raw header value of
  line 153, not passed through \<open>int\<close>: Python 3 orders neither a \<open>str\<close> nor \<open>None\<close> against
  an \<open>int\<close> and raises \<open>TypeError\<close>.
\<close>

fun raw_header_gt_zero :: "quota_header \<Rightarrow> error + bool" where
  "raw_header_gt_zero Absent = Inl TypeError"
| "raw_header_gt_zero Malformed = Inl TypeError"
| "raw_header_gt_zero (Remaining rl) = Inl TypeError"

text \<open>
  The inner \<open>while True\<close> of the 403 branch, for a response with the given quota header.
  It reads the same response object on every round, so a test that comes out false would
  come out false forever.
\<close>

datatype poll_result = PollBreak | PollRaised error | PollForever

definition poll_403 :: "quota_header \<Rightarrow> poll_result" where
  "poll_403 header =
     (case raw_header_gt_zero header of
        Inl e \<Rightarrow> PollRaised e
      | Inr positive \<Rightarrow> if positive then PollBreak else PollForever)"

text \<open>
  One pass through the \<open>try\<close> block (lines 137 to 159), by how it is left:
  \<^item> \<open>Settled\<close>: the call ends, with a \<open>return\<close>, with an exception that no \<open>except\<close> clause
    names (\<open>TypeError\<close>, \<open>ValueError\<close>, the plain \<open>Exception\<close>), or by never leaving the 403
    loop; the list holds the \<open>time.sleep\<close> calls of the pass in seconds;
  \<^item> \<open>Caught\<close>: an exception of the first \<open>except\<close> clause. Besides the connection
    exceptions this is the \<open>JSONDecodeError\<close> of \<open>response.json()\<close> on a body that is not
    JSON, which requests derives from \<open>RequestException\<close>; the call reads \<open>response.json()\<close>
    in the 200 branch and in the message of the \<open>Exception\<close> of the last branch, and not in
    the 403 branch;
  \<^item> \<open>PolledOut\<close>: the 403 loop was left by its \<open>break\<close>, and the outer loop goes round.
\<close>

datatype 'd pass = Settled "'d response option outcome \<times> nat list" | Caught | PolledOut

definition after_poll :: "poll_result \<Rightarrow> 'd pass" where
  "after_poll polled =
     (case polled of
        PollRaised e \<Rightarrow> Settled (Raised e, [])
      | PollForever \<Rightarrow> Settled (Hangs, [])
      | PollBreak \<Rightarrow> PolledOut)"

fun try_block :: "'d post_result \<Rightarrow> 'd pass" where
  "try_block ConnectionFailed = Caught"
| "try_block (Replied response) =
     (if status_code response = 200 then
        (case int_of_header (rate_remaining response) of
           Inl e \<Rightarrow> Settled (Raised e, [])
         | Inr rl \<Rightarrow>
             let naps = (if rl < 1000 then [60 * 10] else []) @ (if rl < 100 then [60 * 60] else [])
             in (case payload response of
                   Some d \<Rightarrow> Settled (Returned (Some response), naps)
                 | None \<Rightarrow> Settled (Raised QueryFailed, naps)))
      else if status_code response = 403 then after_poll (poll_403 (rate_remaining response))
      else Settled (Raised QueryFailed, []))"
| "try_block (RepliedNotJson status header) =
     (if status = 200 then Caught
      else if status = 403 then after_poll (poll_403 header)
      else Caught)"

text \<open>
  \<open>call_api\<close> from its \<open>n\<close>-th request on, with \<open>attempt\<close> caught exceptions counted so far.
  \<open>post n\<close> is what the \<open>n\<close>-th \<open>requests.post\<close> does. The second component of the result
  lists the \<open>time.sleep\<close> calls in seconds.
\<close>

function call_api_from ::
  "(nat \<Rightarrow> 'd post_result) \<Rightarrow> int \<Rightarrow> nat \<Rightarrow> int \<Rightarrow> 'd response option outcome \<times> nat list" where
  "call_api_from post max_retries n attempt =
     (case try_block (post n) of
        Settled result \<Rightarrow> result
      | PolledOut \<Rightarrow> call_api_from post max_retries (Suc n) attempt
      | Caught \<Rightarrow>
          if attempt < max_retries - 1 then
            (case call_api_from post max_retries (Suc n) (attempt + 1) of
               (result, naps) \<Rightarrow> (result, 20 # naps))
          else (Returned None, []))"
  by pat_completeness auto
termination
proof (relation "measure (\<lambda>(post, max_retries, n, attempt). nat (max_retries - 1 - attempt))")
  show "wf (measure (\<lambda>(post, max_retries, n, attempt). nat (max_retries - 1 - attempt)))"
    by simp
next
  fix post :: "nat \<Rightarrow> 'd post_result" and max_retries :: int and n :: nat and attempt :: int
  assume polled: "try_block (post n) = PolledOut"
  have "after_poll (poll_403 header) \<noteq> (PolledOut :: 'd pass)" for header
    by (cases header) (simp_all add: poll_403_def after_poll_def)
  with polled have False
    by (cases "post n") (auto simp: Let_def split: sum.splits option.splits if_splits)
  then show "((post, max_retries, Suc n, attempt), (post, max_retries, n, attempt))
      \<in> measure (\<lambda>(post, max_retries, n, attempt). nat (max_retries - 1 - attempt))"
    by simp
next
  fix post :: "nat \<Rightarrow> 'd post_result" and max_retries :: int and n :: nat and attempt :: int
  assume "attempt < max_retries - 1"
  then show "((post, max_retries, Suc n, attempt + 1), (post, max_retries, n, attempt))
      \<in> measure (\<lambda>(post, max_retries, n, attempt). nat (max_retries - 1 - attempt))"
    by simp
qed

declare call_api_from.simps [simp del]

definition call_api :: "(nat \<Rightarrow> 'd post_result) \<Rightarrow> int \<Rightarrow> 'd response option outcome \<times> nat list" where
  "call_api post max_retries = call_api_from post max_retries 0 0"

section \<open>Paginator (utils.py, \<open>Repo.get_all_loop\<close>)\<close>

text \<open>
  The object found at \<open>data_path\<close> in a page: its \<open>nodes\<close> and the two fields of
  \<open>pageInfo\<close>.
\<close>

record 'a connection =
  nodes :: "'a list"
  hasNextPage :: bool
  endCursor :: "string option"

text \<open>
  The local variable \<open>response\<close> of the generator: not yet assigned, or holding what
  \<open>call_api\<close> last returned (\<open>None\<close> or a response).
\<close>

datatype 'r variable = Unbound | Bound 'r

record 'd loop_state =
  calls :: nat
  after :: "string option"
  page :: int
  response_var :: "'d response option variable"

datatype ending = Finished | Crashed error | Hung

datatype 'd step_result = Continue "'d loop_state" | Stop ending

text \<open>
  The \<open>except Exception\<close> handler (lines 369 to 382): it reads the quota header of whatever
  \<open>response\<close> holds. A positive count leaves the handler and the outer loop tries the same
  page again; any other count sleeps and reads the same header again, forever; an
  exception raised here leaves the generator.
\<close>

definition handler :: "'d loop_state \<Rightarrow> 'd step_result" where
  "handler st =
     (case response_var st of
        Unbound \<Rightarrow> Stop (Crashed UnboundLocalError)
      | Bound None \<Rightarrow> Stop (Crashed AttributeError)
      | Bound (Some response) \<Rightarrow>
          (case int_of_header (rate_remaining response) of
             Inl e \<Rightarrow> Stop (Crashed e)
           | Inr rl \<Rightarrow> if rl > 0 then Continue (st\<lparr>calls := Suc (calls st)\<rparr>) else Stop Hung))"

text \<open>
  One round of the \<open>while True\<close> loop: the items it yields and how it goes on.
  \<open>api k cursor\<close> is what the \<open>k\<close>-th \<open>call_api\<close> of the generator does when asked for the
  page after \<open>cursor\<close>. \<open>walk\<close> follows the keys of \<open>data_path\<close> below \<open>"data"\<close> and reads the
  connection there; \<open>None\<close> when a key is missing, which raises inside the \<open>try\<close>.
\<close>

definition page_step ::
  "(nat \<Rightarrow> string option \<Rightarrow> 'd response option outcome) \<Rightarrow> ('d \<Rightarrow> 'a connection option) \<Rightarrow>
   int option \<Rightarrow> bool \<Rightarrow> 'd loop_state \<Rightarrow> 'a list \<times> 'd step_result" where
  "page_step api walk num_pages quiet st =
     (case api (calls st) (after st) of
        Hangs \<Rightarrow> ([], Stop Hung)
      | Raised e \<Rightarrow> ([], handler st)
      | Returned None \<Rightarrow> ([], handler (st\<lparr>response_var := Bound None\<rparr>))
      | Returned (Some response) \<Rightarrow>
          let st = st\<lparr>response_var := Bound (Some response)\<rparr>
          in (case Option.bind (payload response) walk of
                None \<Rightarrow> ([], handler st)
              | Some data \<Rightarrow>
                  let values = nodes data
                  in if values = [] then ([], Stop Finished)
                     else if \<not> quiet \<and> isl (int_of_header (rate_remaining response))
                       then (values, handler st)
                     else if (case num_pages of None \<Rightarrow> False | Some bound \<Rightarrow> page st \<ge> bound)
                       then (values, Stop Finished)
                     else if \<not> hasNextPage data then (values, Stop Finished)
                     else (values,
                           Continue (st\<lparr>calls := Suc (calls st), after := endCursor data,
                                        page := page st + 1\<rparr>))))"

text \<open>
  The generator, run to its end: everything it yields and how it ends. The loop has no
  bound of its own, so the model runs on fuel; \<open>None\<close> means the fuel ran out.
\<close>

fun run_loop ::
  "nat \<Rightarrow> (nat \<Rightarrow> string option \<Rightarrow> 'd response option outcome) \<Rightarrow> ('d \<Rightarrow> 'a connection option) \<Rightarrow>
   int option \<Rightarrow> bool \<Rightarrow> 'd loop_state \<Rightarrow> ('a list \<times> ending) option" where
  "run_loop 0 api walk num_pages quiet st = None"
| "run_loop (Suc fuel) api walk num_pages quiet st =
     (case page_step api walk num_pages quiet st of
        (values, Stop e) \<Rightarrow> Some (values, e)
      | (values, Continue st') \<Rightarrow>
          (case run_loop fuel api walk num_pages quiet st' of
             None \<Rightarrow> None
           | Some (later, e) \<Rightarrow> Some (values @ later, e)))"

definition initial_state :: "'d loop_state" where
  "initial_state = \<lparr>calls = 0, after = None, page = 1, response_var = Unbound\<rparr>"

definition get_all_loop ::
  "nat \<Rightarrow> (nat \<Rightarrow> string option \<Rightarrow> 'd response option outcome) \<Rightarrow> ('d \<Rightarrow> 'a connection option) \<Rightarrow>
   int option \<Rightarrow> bool \<Rightarrow> ('a list \<times> ending) option" where
  "get_all_loop fuel api walk num_pages quiet = run_loop fuel api walk num_pages quiet initial_state"

text \<open>
  The state in which round \<open>i\<close> starts (rounds counted from 0), if the loop gets that far,
  and the items yielded before it.
\<close>

fun round_state ::
  "nat \<Rightarrow> (nat \<Rightarrow> string option \<Rightarrow> 'd response option outcome) \<Rightarrow> ('d \<Rightarrow> 'a connection option) \<Rightarrow>
   int option \<Rightarrow> bool \<Rightarrow> 'd loop_state \<Rightarrow> ('a list \<times> 'd loop_state) option" where
  "round_state 0 api walk num_pages quiet st = Some ([], st)"
| "round_state (Suc i) api walk num_pages quiet st =
     (case page_step api walk num_pages quiet st of
        (values, Stop e) \<Rightarrow> None
      | (values, Continue st') \<Rightarrow>
          (case round_state i api walk num_pages quiet st' of
             None \<Rightarrow> None
           | Some (later, st'') \<Rightarrow> Some (values @ later, st'')))"

text \<open>The page a round fetches has an empty \<open>nodes\<close> list.\<close>

definition empty_page ::
  "(nat \<Rightarrow> string option \<Rightarrow> 'd response option outcome) \<Rightarrow> ('d \<Rightarrow> 'a connection option) \<Rightarrow>
   'd loop_state \<Rightarrow> bool" where
  "empty_page api walk st =
     (case api (calls st) (after st) of
        Returned (Some response) \<Rightarrow>
          (case Option.bind (payload response) walk of
             Some data \<Rightarrow> nodes data = []
           | None \<Rightarrow> False)
      | _ \<Rightarrow> False)"

section \<open>Tag and version resolver (utils.py, \<open>Repo.get_version_at_commit\<close>)\<close>

subsection \<open>The version pattern\<close>

text \<open>
  \<open>re.search(r"(\d+\.\d+)(?:\.\d+)?", tag_name)\<close> and its group 1. Among code points
  below 256 the pattern's \<open>\d\<close> matches the ten ASCII digits only. \<open>match_here\<close> is the
  pattern anchored at the head of the string: both digit runs are greedy, and giving
  back digits of the first run never helps, since the next character would then be a
  digit and not the dot. \<open>version_search\<close> tries every start position from the left.
\<close>

definition is_digit :: "char \<Rightarrow> bool" where
  "is_digit c \<longleftrightarrow> c \<in> set ''0123456789''"

definition match_here :: "string \<Rightarrow> string option" where
  "match_here s =
     (let major = takeWhile is_digit s
      in if major = [] then None
         else (case dropWhile is_digit s of
                 [] \<Rightarrow> None
               | c # rest \<Rightarrow>
                   if c \<noteq> CHR ''.'' then None
                   else (let minor = takeWhile is_digit rest
                         in if minor = [] then None else Some (major @ ''.'' @ minor))))"

fun version_search :: "string \<Rightarrow> string option" where
  "version_search [] = None"
| "version_search (c # cs) =
     (case match_here (c # cs) of
        Some version \<Rightarrow> Some version
      | None \<Rightarrow> version_search cs)"

subsection \<open>The tag cache\<close>

text \<open>
  A cache entry, the dictionary with keys \<open>"name"\<close>, \<open>"oid"\<close> and \<open>"date"\<close>; and the two
  fields of \<open>Repo\<close> that the resolver writes.
\<close>

record tag =
  tag_name :: string
  tag_oid :: string
  tag_date :: string

record repo =
  tags_cache :: "tag list option"
  tags_cache_loaded :: bool

text \<open>
  The remote answers and the date parser are parameters:
  \<^item> \<open>tag_refs\<close> is the outcome of the query for the first 100 tag refs: an exception,
    no response (\<open>call_api\<close> returned \<open>None\<close>), or the nodes as pairs of name and target oid;
  \<^item> \<open>committed_date oid\<close> is the outcome of the query for the \<open>committedDate\<close> of an
    object: an exception, nothing (no response, or no commit object), or the date string;
  \<^item> \<open>parse_ts\<close> is \<open>parser.parse(...)\<close> of dateutil followed by \<open>.timestamp()\<close>, in seconds,
    \<open>None\<close> when the parser raises. The dates GitHub sends have whole seconds, for which the
    float that Python computes is the exact integer.
\<close>

fun collect_tags ::
  "(string \<Rightarrow> error + string option) \<Rightarrow> (string \<times> string) list \<Rightarrow> error + tag list" where
  "collect_tags committed_date [] = Inr []"
| "collect_tags committed_date ((name, oid) # refs) =
     (case committed_date oid of
        Inl e \<Rightarrow> Inl e
      | Inr found \<Rightarrow>
          (case collect_tags committed_date refs of
             Inl e \<Rightarrow> Inl e
           | Inr tags \<Rightarrow>
               Inr (case found of
                      Some date \<Rightarrow> \<lparr>tag_name = name, tag_oid = oid, tag_date = date\<rparr> # tags
                    | None \<Rightarrow> tags)))"

text \<open>
  \<open>sort(key=lambda x: parser.parse(x["date"]), reverse=True)\<close>: the keys are computed
  first (a date that does not parse raises), and the sort is stable also when reversed,
  so tags of equal date keep their order.
\<close>

definition sort_newest_first :: "(string \<Rightarrow> int option) \<Rightarrow> tag list \<Rightarrow> error + tag list" where
  "sort_newest_first parse_ts tags =
     (if list_all (\<lambda>t. parse_ts (tag_date t) \<noteq> None) tags
      then Inr (sort_key (\<lambda>t. - the (parse_ts (tag_date t))) tags)
      else Inl ValueError)"

definition load_tags_cache ::
  "(error + (string \<times> string) list option) \<Rightarrow> (string \<Rightarrow> error + string option) \<Rightarrow>
   (string \<Rightarrow> int option) \<Rightarrow> repo \<Rightarrow> repo" where
  "load_tags_cache tag_refs committed_date parse_ts self =
     (if tags_cache_loaded self then self
      else (case tag_refs of
              Inl e \<Rightarrow> self\<lparr>tags_cache := Some [], tags_cache_loaded := True\<rparr>
            | Inr None \<Rightarrow> self\<lparr>tags_cache_loaded := True\<rparr>
            | Inr (Some refs) \<Rightarrow>
                if refs = [] then self\<lparr>tags_cache_loaded := True\<rparr>
                else (case collect_tags committed_date refs of
                        Inl e \<Rightarrow> self\<lparr>tags_cache := Some [], tags_cache_loaded := True\<rparr>
                      | Inr tags \<Rightarrow>
                          (case sort_newest_first parse_ts tags of
                             Inl e \<Rightarrow> self\<lparr>tags_cache := Some [], tags_cache_loaded := True\<rparr>
                           | Inr sorted_tags \<Rightarrow>
                               self\<lparr>tags_cache := Some sorted_tags, tags_cache_loaded := True\<rparr>))))"

subsection \<open>Resolution\<close>

text \<open>
  Python's \<open>min(xs, key=f)\<close> on a non-empty list: the current best is replaced only by an
  element with a strictly smaller key, so the first minimum wins.
\<close>

fun py_min :: "('a \<Rightarrow> int) \<Rightarrow> 'a \<Rightarrow> 'a list \<Rightarrow> 'a" where
  "py_min key best [] = best"
| "py_min key best (x # xs) = py_min key (if key x < key best then x else best) xs"

text \<open>
  \<open>min(self._tags_cache, key=lambda x: abs(parser.parse(x["date"]).timestamp() -
  commit_timestamp))\<close>; a date that does not parse raises.
\<close>

definition closest_tag :: "(string \<Rightarrow> int option) \<Rightarrow> int \<Rightarrow> tag list \<Rightarrow> error + tag" where
  "closest_tag parse_ts commit_timestamp tags =
     (case those (map (\<lambda>t. parse_ts (tag_date t)) tags) of
        None \<Rightarrow> Inl ValueError
      | Some stamps \<Rightarrow>
          (case zip tags (map (\<lambda>stamp. \<bar>stamp - commit_timestamp\<bar>) stamps) of
             [] \<Rightarrow> Inl ValueError
           | first # others \<Rightarrow> Inr (fst (py_min snd first others))))"

text \<open>
  How far a cached tag's date lies from the commit's, in seconds, for a tag whose date
  parses: the key of that \<open>min\<close>.
\<close>

definition tag_distance :: "(string \<Rightarrow> int option) \<Rightarrow> int \<Rightarrow> tag \<Rightarrow> int" where
  "tag_distance parse_ts commit_timestamp t = \<bar>the (parse_ts (tag_date t)) - commit_timestamp\<bar>"

text \<open>
  The second try (lines 280 to 298): \<open>Inr (Some version)\<close> is its \<open>return version\<close>,
  \<open>Inr None\<close> means control goes on to the fallback.
\<close>

definition second_try ::
  "(string \<Rightarrow> int option) \<Rightarrow> string option \<Rightarrow> tag list \<Rightarrow> error + string option" where
  "second_try parse_ts commit_date tags =
     (case commit_date of
        None \<Rightarrow> Inr None
      | Some date \<Rightarrow>
          if date = [] \<or> tags = [] then Inr None
          else (case parse_ts date of
                  None \<Rightarrow> Inl ValueError
                | Some commit_timestamp \<Rightarrow>
                    (case closest_tag parse_ts commit_timestamp tags of
                       Inl e \<Rightarrow> Inl e
                     | Inr closest \<Rightarrow> Inr (version_search (tag_name closest)))))"

text \<open>
  The body of the \<open>try\<close> after the cache is loaded (lines 248 to 318). The second try
  and the fallback stand in the \<open>else\<close> of \<open>if matching_tags\<close>.
\<close>

definition version_body ::
  "(string \<Rightarrow> error + string option) \<Rightarrow> (string \<Rightarrow> int option) \<Rightarrow> tag list option \<Rightarrow> string \<Rightarrow>
   error + string option" where
  "version_body committed_date parse_ts cache commit_sha =
     (case committed_date commit_sha of
        Inl e \<Rightarrow> Inl e
      | Inr commit_date \<Rightarrow>
          (case cache of
             None \<Rightarrow> Inr None
           | Some [] \<Rightarrow> Inr None
           | Some (newest # older) \<Rightarrow>
               (case filter (\<lambda>t. tag_oid t = commit_sha) (newest # older) of
                  exact # _ \<Rightarrow>
                    (case version_search (tag_name exact) of
                       Some version \<Rightarrow> Inr (Some version)
                     | None \<Rightarrow> Inr None)
                | [] \<Rightarrow>
                    (case second_try parse_ts commit_date (newest # older) of
                       Inl e \<Rightarrow> Inl e
                     | Inr (Some version) \<Rightarrow> Inr (Some version)
                     | Inr None \<Rightarrow> Inr (version_search (tag_name newest))))))"

text \<open>
  The same resolution as section 4.5 of the specification words it, for comparison with
  \<open>version_body\<close>: step 2 returns the version of the first exact match "or falls through
  if the tag name contains no such pattern", step 3 applies "if no exact match (or its
  name had no parseable version)", and step 4 is the newest tag.
\<close>

definition version_body_as_specified ::
  "(string \<Rightarrow> error + string option) \<Rightarrow> (string \<Rightarrow> int option) \<Rightarrow> tag list option \<Rightarrow> string \<Rightarrow>
   error + string option" where
  "version_body_as_specified committed_date parse_ts cache commit_sha =
     (case committed_date commit_sha of
        Inl e \<Rightarrow> Inl e
      | Inr commit_date \<Rightarrow>
          (case cache of
             None \<Rightarrow> Inr None
           | Some [] \<Rightarrow> Inr None
           | Some (newest # older) \<Rightarrow>
               (case (case filter (\<lambda>t. tag_oid t = commit_sha) (newest # older) of
                        exact # _ \<Rightarrow> version_search (tag_name exact)
                      | [] \<Rightarrow> None) of
                  Some version \<Rightarrow> Inr (Some version)
                | None \<Rightarrow>
                    (case second_try parse_ts commit_date (newest # older) of
                       Inl e \<Rightarrow> Inl e
                     | Inr (Some version) \<Rightarrow> Inr (Some version)
                     | Inr None \<Rightarrow> Inr (version_search (tag_name newest))))))"

text \<open>
  \<open>get_version_at_commit\<close>: the version, or \<open>None\<close> for "not found", and the repository
  object with its cache loaded. Every exception of the body is caught and gives \<open>None\<close>.
\<close>

definition get_version_at_commit ::
  "(error + (string \<times> string) list option) \<Rightarrow> (string \<Rightarrow> error + string option) \<Rightarrow>
   (string \<Rightarrow> int option) \<Rightarrow> repo \<Rightarrow> string \<Rightarrow> string option \<times> repo" where
  "get_version_at_commit tag_refs committed_date parse_ts self commit_sha =
     (let self = load_tags_cache tag_refs committed_date parse_ts self
      in (case version_body committed_date parse_ts (tags_cache self) commit_sha of
            Inl e \<Rightarrow> (None, self)
          | Inr version \<Rightarrow> (version, self)))"

section \<open>Instance assembler (utils.py)\<close>

subsection \<open>Hints\<close>

text \<open>
  A node of \<open>get_pull_commits\<close> (the author date and the url of its commit) and a node of
  \<open>get_issue_comments\<close>.
\<close>

record commit =
  author_date :: string
  commit_url :: string

record comment =
  comment_body :: string
  updatedAt :: string

definition newline :: string where
  "newline = [CHR 0x0A]"

text \<open>
  The loop over the comments (lines 582 to 591). \<open>mktime_ts\<close> is
  \<open>time.mktime(time.strptime(s, "%Y-%m-%dT%H:%M:%SZ"))\<close>, \<open>None\<close> when \<open>strptime\<close> raises.
\<close>

fun hint_loop ::
  "(string \<Rightarrow> int option) \<Rightarrow> int \<Rightarrow> comment list \<Rightarrow> comment list \<Rightarrow> comment list \<Rightarrow>
   error + comment list \<times> comment list" where
  "hint_loop mktime_ts commit_time [] issue_hint_comments issue_all_comments =
     Inr (issue_hint_comments, issue_all_comments)"
| "hint_loop mktime_ts commit_time (c # cs) issue_hint_comments issue_all_comments =
     (case mktime_ts (updatedAt c) of
        None \<Rightarrow> Inl ValueError
      | Some comment_time \<Rightarrow>
          hint_loop mktime_ts commit_time cs
            (if comment_time < commit_time then issue_hint_comments @ [c] else issue_hint_comments)
            (issue_all_comments @ [c]))"

text \<open>
  \<open>_extract_hints\<close>. \<open>pull_commits\<close> is \<open>list(repo.get_pull_commits(...))\<close> and
  \<open>issue_comments\<close> is \<open>list(repo.get_issue_comments(...))\<close>, each an exception or the list.
  The time of the first commit is read by \<open>parse_ts\<close> (dateutil), the time of a comment by
  \<open>mktime_ts\<close>.
\<close>

definition extract_hints ::
  "(string \<Rightarrow> int option) \<Rightarrow> (string \<Rightarrow> int option) \<Rightarrow> (error + commit list) \<Rightarrow>
   (error + comment list) \<Rightarrow> error + string \<times> string \<times> string list" where
  "extract_hints parse_ts mktime_ts pull_commits issue_comments =
     (case pull_commits of
        Inl e \<Rightarrow> Inl e
      | Inr [] \<Rightarrow> Inr ([], [], [])
      | Inr (first # others) \<Rightarrow>
          (case parse_ts (author_date first) of
             None \<Rightarrow> Inl ValueError
           | Some commit_time \<Rightarrow>
               let commit_urls = map commit_url (first # others)
               in (case issue_comments of
                     Inl e \<Rightarrow> Inl e
                   | Inr all_issue_comments \<Rightarrow>
                       (case hint_loop mktime_ts commit_time all_issue_comments [] [] of
                          Inl e \<Rightarrow> Inl e
                        | Inr (issue_hint_comments, issue_all_comments) \<Rightarrow>
                            Inr (join newline (map comment_body issue_hint_comments),
                                 join newline (map comment_body issue_all_comments),
                                 commit_urls)))))"

subsection \<open>Problem statement\<close>

text \<open>
  The issue object of a \<open>get_issue\<close> response; a \<open>null\<close> title or body is \<open>None\<close>.
\<close>

record issue =
  issue_number :: int
  issue_title :: "string option"
  issue_body :: "string option"

text \<open>The four local variables of \<open>extract_problem_statement_and_hints\<close>.\<close>

record locals =
  problem_text :: string
  hint_text :: string
  all_hint_text :: string
  commit_urls :: "string list variable"

text \<open>
  The loop over \<open>pull["resolved_issues"]\<close>. The remote answers may differ from round to
  round, so they take the round number \<open>i\<close>:
  \<^item> \<open>get_issue i n\<close>: an exception, \<open>None\<close> (the call returned \<open>None\<close>), a response whose
    issue is \<open>null\<close> (subscripting it raises \<open>TypeError\<close>), or a response with an issue;
  \<^item> \<open>pull_commits i\<close> and \<open>issue_comments i n\<close>: what \<open>_extract_hints\<close> gets in round \<open>i\<close>.
\<close>

fun issues_loop ::
  "(string \<Rightarrow> int option) \<Rightarrow> (string \<Rightarrow> int option) \<Rightarrow>
   (nat \<Rightarrow> int \<Rightarrow> error + issue option option) \<Rightarrow> (nat \<Rightarrow> error + commit list) \<Rightarrow>
   (nat \<Rightarrow> int \<Rightarrow> error + comment list) \<Rightarrow> nat \<Rightarrow> int list \<Rightarrow> locals \<Rightarrow> error + locals" where
  "issues_loop parse_ts mktime_ts get_issue pull_commits issue_comments i [] vars = Inr vars"
| "issues_loop parse_ts mktime_ts get_issue pull_commits issue_comments i (n # ns) vars =
     (case get_issue i n of
        Inl e \<Rightarrow> Inl e
      | Inr None \<Rightarrow>
          issues_loop parse_ts mktime_ts get_issue pull_commits issue_comments (Suc i) ns vars
      | Inr (Some None) \<Rightarrow> Inl TypeError
      | Inr (Some (Some found)) \<Rightarrow>
          let title = (case issue_title found of Some t \<Rightarrow> t | None \<Rightarrow> []);
              body = (case issue_body found of Some b \<Rightarrow> b | None \<Rightarrow> [])
          in (case extract_hints parse_ts mktime_ts (pull_commits i)
                     (issue_comments i (issue_number found)) of
                Inl e \<Rightarrow> Inl e
              | Inr (single_hint, single_all_hint, urls) \<Rightarrow>
                  issues_loop parse_ts mktime_ts get_issue pull_commits issue_comments (Suc i) ns
                    \<lparr>problem_text = problem_text vars @ title @ newline @ body @ newline,
                     hint_text = hint_text vars @ single_hint @ newline @ newline,
                     all_hint_text = all_hint_text vars @ single_all_hint @ newline @ newline,
                     commit_urls = Bound urls\<rparr>))"

text \<open>
  What the function returns: the four values of its \<open>return\<close>, or, for the repository
  named \<open>django\<close>, whatever the ticket-tracker variant returns (a parameter here).
\<close>

datatype 'l statement = Hints string string string "string list" | Legacy 'l

definition extract_problem_statement_and_hints ::
  "(string \<Rightarrow> int option) \<Rightarrow> (string \<Rightarrow> int option) \<Rightarrow>
   (nat \<Rightarrow> int \<Rightarrow> error + issue option option) \<Rightarrow> (nat \<Rightarrow> error + commit list) \<Rightarrow>
   (nat \<Rightarrow> int \<Rightarrow> error + comment list) \<Rightarrow> (error + 'l) \<Rightarrow> string \<Rightarrow> int list \<Rightarrow>
   error + 'l statement" where
  "extract_problem_statement_and_hints parse_ts mktime_ts get_issue pull_commits issue_comments
       django repo_name resolved_issues =
     (if repo_name = ''django'' then map_sum id Legacy django
      else (case issues_loop parse_ts mktime_ts get_issue pull_commits issue_comments 0
                   resolved_issues
                   \<lparr>problem_text = [], hint_text = [], all_hint_text = [], commit_urls = Unbound\<rparr> of
              Inl e \<Rightarrow> Inl e
            | Inr vars \<Rightarrow>
                (case commit_urls vars of
                   Unbound \<Rightarrow> Inl UnboundLocalError
                 | Bound urls \<Rightarrow>
                     Inr (Hints (problem_text vars) (hint_text vars) (all_hint_text vars) urls))))"

text \<open>
  The round of the last issue that the loop processes, that is, whose \<open>get_issue\<close> gave a
  response; \<open>None\<close> when there is none.
\<close>

fun last_processed ::
  "(nat \<Rightarrow> int \<Rightarrow> error + issue option option) \<Rightarrow> nat \<Rightarrow> int list \<Rightarrow> (nat \<times> issue) option" where
  "last_processed get_issue i [] = None"
| "last_processed get_issue i (n # ns) =
     (case last_processed get_issue (Suc i) ns of
        Some later \<Rightarrow> Some later
      | None \<Rightarrow> (case get_issue i n of Inr (Some (Some found)) \<Rightarrow> Some (i, found) | _ \<Rightarrow> None))"

subsection \<open>Patches\<close>

text \<open>
  What one \<open>requests.get\<close> does in \<open>wrapped_requests_get\<close>: it returns a response (kept as
  its \<open>text\<close>), raises \<open>HTTPError\<close>, or raises another of the listed connection exceptions.
\<close>

datatype get_result = Got string | HttpFailed | ConnectFailed

function wrapped_requests_get :: "(nat \<Rightarrow> get_result) \<Rightarrow> int \<Rightarrow> int \<Rightarrow> string option" where
  "wrapped_requests_get get max_retries attempt =
     (if attempt < max_retries then
        (case get (nat attempt) of
           Got response \<Rightarrow> Some response
         | HttpFailed \<Rightarrow> None
         | ConnectFailed \<Rightarrow>
             if attempt < max_retries - 1 then wrapped_requests_get get max_retries (attempt + 1)
             else None)
      else None)"
  by pat_completeness auto
termination
  by (relation "measure (\<lambda>(get, max_retries, attempt). nat (max_retries - attempt))") auto

declare wrapped_requests_get.simps [simp del]

text \<open>
  A file of the parsed diff (a \<open>PatchedFile\<close> of unidiff): its \<open>path\<close> and \<open>str\<close> of it.
\<close>

record patched_file =
  path :: string
  rendered :: string

text \<open>Python's \<open>needle in haystack\<close> on strings.\<close>

fun contains :: "string \<Rightarrow> string \<Rightarrow> bool" where
  "contains needle [] \<longleftrightarrow> needle = []"
| "contains needle (c # cs) \<longleftrightarrow> prefix needle (c # cs) \<or> contains needle cs"

definition test_words :: "string list" where
  "test_words = [''test'', ''tests'', ''e2e'', ''testing'']"

definition is_test_path :: "string \<Rightarrow> bool" where
  "is_test_path p \<longleftrightarrow> list_ex (\<lambda>test_word. contains test_word p) test_words"

text \<open>The loop over the files of the diff, with its two accumulators.\<close>

fun split_loop :: "patched_file list \<Rightarrow> string \<Rightarrow> string \<Rightarrow> string \<times> string" where
  "split_loop [] patch_fix patch_test = (patch_fix, patch_test)"
| "split_loop (hunk # hunks) patch_fix patch_test =
     (if is_test_path (path hunk) then split_loop hunks patch_fix (patch_test @ rendered hunk)
      else split_loop hunks (patch_fix @ rendered hunk) patch_test)"

text \<open>
  \<open>extract_patches\<close>. \<open>PatchSet\<close> is the parser of unidiff, a parameter: the files of a
  diff, or an exception. When \<open>wrapped_requests_get\<close> returns \<open>None\<close>, reading \<open>.text\<close> raises
  \<open>AttributeError\<close>.
\<close>

definition extract_patches ::
  "(nat \<Rightarrow> get_result) \<Rightarrow> (string \<Rightarrow> error + patched_file list) \<Rightarrow> error + string \<times> string" where
  "extract_patches get PatchSet =
     (case wrapped_requests_get get 10 0 of
        None \<Rightarrow> Inl AttributeError
      | Some patch \<Rightarrow>
          (case PatchSet patch of
             Inl e \<Rightarrow> Inl e
           | Inr hunks \<Rightarrow> Inr (split_loop hunks [] [])))"

section \<open>Library clocks\<close>

text \<open>
  The functions above take the two library calls that turn a date string into seconds as
  parameters. This section gives their values on the two forms of date that GitHub
  sends, with a four-digit year and two digits in every other field:
  \<^item> \<open>YYYY-MM-DDTHH:MM:SSZ\<close>, the form of \<open>committedDate\<close> and \<open>updatedAt\<close>;
  \<^item> \<open>YYYY-MM-DDTHH:MM:SS+HH:MM\<close> (or with \<open>-\<close>), the form a commit's author date may have.

  On a string of one of these forms \<open>None\<close> means that the library raises \<open>ValueError\<close>. The
  definitions are for use in concrete examples and say nothing about strings of any
  other form, on which they give \<open>None\<close> as well.
\<close>

definition digit_value :: "char \<Rightarrow> int" where
  "digit_value c = int (of_char c) - 48"

definition read_digits :: "string \<Rightarrow> int" where
  "read_digits s = foldl (\<lambda>n c. 10 * n + digit_value c) 0 s"

definition leap_year :: "int \<Rightarrow> bool" where
  "leap_year y \<longleftrightarrow> y mod 4 = 0 \<and> (0 < y mod 100 \<or> y mod 400 = 0)"

definition days_in_month :: "int \<Rightarrow> int \<Rightarrow> int" where
  "days_in_month y m =
     (if m = 2 then (if leap_year y then 29 else 28)
      else if m \<in> {4, 6, 9, 11} then 30 else 31)"

text \<open>
  The days from 1970-01-01 to a date of the proleptic Gregorian calendar, counted by
  eras of 400 years that start on 1 March.
\<close>

definition days_from_civil :: "int \<Rightarrow> int \<Rightarrow> int \<Rightarrow> int" where
  "days_from_civil y m d =
     (let y' = (if m \<le> 2 then y - 1 else y);
          era = y' div 400;
          yoe = y' - era * 400;
          doy = (153 * (if m > 2 then m - 3 else m + 9) + 2) div 5 + d - 1;
          doe = yoe * 365 + yoe div 4 - yoe div 100 + doy
      in era * 146097 + doe - 719468)"

text \<open>
  The seconds from 1970-01-01T00:00:00 to the date and time that the 19 characters
  \<open>YYYY-MM-DDTHH:MM:SS\<close> name, read without a zone. The date must exist (no 30 February)
  and the seconds must not exceed \<open>max_second\<close>: a \<open>datetime\<close> takes seconds up to 59,
  \<open>strptime\<close> takes them up to 61 and \<open>mktime\<close> carries the excess over.
\<close>

definition civil_seconds :: "int \<Rightarrow> string \<Rightarrow> int option" where
  "civil_seconds max_second stem =
     (let year = read_digits (take 4 stem); month = read_digits (take 2 (drop 5 stem));
          day = read_digits (take 2 (drop 8 stem)); hour = read_digits (take 2 (drop 11 stem));
          minute = read_digits (take 2 (drop 14 stem)); second = read_digits (drop 17 stem)
      in if length stem = 19 \<and> map ((!) stem) [4, 7, 10, 13, 16] = ''--T::''
            \<and> list_all is_digit (take 4 stem @ take 2 (drop 5 stem) @ take 2 (drop 8 stem)
                 @ take 2 (drop 11 stem) @ take 2 (drop 14 stem) @ drop 17 stem)
            \<and> 1 \<le> year \<and> 1 \<le> month \<and> month \<le> 12
            \<and> 1 \<le> day \<and> day \<le> days_in_month year month
            \<and> hour < 24 \<and> minute < 60 \<and> second \<le> max_second
         then Some (days_from_civil year month day * 86400 + hour * 3600 + minute * 60 + second)
         else None)"

text \<open>The instant that a string of the first form names, as seconds since the epoch.\<close>

definition utc_seconds :: "string \<Rightarrow> int option" where
  "utc_seconds s =
     (if length s = 20 \<and> s ! 19 = CHR ''Z'' then civil_seconds 59 (take 19 s) else None)"

text \<open>
  The zone of the second form, in seconds east of UTC: dateutil computes it as hours
  times 3600 plus minutes times 60, with the sign, and a \<open>datetime\<close> takes a zone of less
  than 24 hours.
\<close>

definition zone_seconds :: "string \<Rightarrow> int option" where
  "zone_seconds z =
     (let magnitude = read_digits (take 2 (drop 1 z)) * 3600 + read_digits (drop 4 z) * 60
      in if length z = 6 \<and> z ! 0 \<in> set ''+-'' \<and> z ! 3 = CHR '':''
            \<and> list_all is_digit (take 2 (drop 1 z) @ drop 4 z) \<and> magnitude < 86400
         then Some (if z ! 0 = CHR ''+'' then magnitude else - magnitude)
         else None)"

text \<open>
  \<open>parser.parse(s).timestamp()\<close> of dateutil: the trailing \<open>Z\<close> or zone makes the datetime
  aware, and its timestamp is the instant's POSIX time.
\<close>

definition dateutil_timestamp :: "string \<Rightarrow> int option" where
  "dateutil_timestamp s =
     (case utc_seconds s of
        Some seconds \<Rightarrow> Some seconds
      | None \<Rightarrow>
          if length s = 25 then
            (case civil_seconds 59 (take 19 s) of
               None \<Rightarrow> None
             | Some local_seconds \<Rightarrow>
                 (case zone_seconds (drop 19 s) of
                    None \<Rightarrow> None
                  | Some east \<Rightarrow> Some (local_seconds - east)))
          else None)"

text \<open>
  \<open>time.mktime(time.strptime(s, "%Y-%m-%dT%H:%M:%SZ"))\<close>: the format reads the \<open>Z\<close> as a
  literal, so the fields carry no zone, and \<open>mktime\<close> takes them as local time. In a
  process whose local zone is \<open>utc_offset\<close> seconds east of UTC, the result is the UTC
  reading less the offset. A string of the second form does not match the format.
\<close>

definition strptime_mktime :: "int \<Rightarrow> string \<Rightarrow> int option" where
  "strptime_mktime utc_offset s =
     (if length s = 20 \<and> s ! 19 = CHR ''Z''
      then map_option (\<lambda>seconds. seconds - utc_offset) (civil_seconds 61 (take 19 s))
      else None)"

section \<open>Example inputs\<close>

text \<open>A count query that answers 1001 and a fetch that finds nothing, for any query.\<close>

definition over_cap :: "string \<Rightarrow> error + int" where
  "over_cap query = Inr 1001"

definition no_repos :: "string \<Rightarrow> error + string list" where
  "no_repos query = Inr []"

text \<open>A commit-date query that finds the given date, and a repository with a loaded cache.\<close>

definition commit_dated :: "string \<Rightarrow> string \<Rightarrow> error + string option" where
  "commit_dated date oid = Inr (Some date)"

definition loaded_repo :: "tag list \<Rightarrow> repo" where
  "loaded_repo tags = \<lparr>tags_cache = Some tags, tags_cache_loaded = True\<rparr>"

text \<open>
  A \<open>requests.get\<close> that answers with the given text, and a parsed diff of two files.
\<close>

definition served :: "string \<Rightarrow> nat \<Rightarrow> get_result" where
  "served body n = Got body"

definition two_files :: "string \<Rightarrow> error + patched_file list" where
  "two_files patch =
     Inr [\<lparr>path = ''src/app.py'', rendered = ''[hunk of src/app.py]''\<rparr>,
          \<lparr>path = ''tests/test_app.py'', rendered = ''[hunk of tests/test_app.py]''\<rparr>]"

text \<open>
  Answers for the problem-statement loop: no response for any issue; an issue for every
  number; a pull request that has one commit in round 0 and two from round 1 on; no
  comments; and a ticket-tracker variant that is not used.
\<close>

definition no_issue :: "nat \<Rightarrow> int \<Rightarrow> error + issue option option" where
  "no_issue i n = Inr None"

definition issue_found :: "nat \<Rightarrow> int \<Rightarrow> error + issue option option" where
  "issue_found i n = Inr (Some (Some \<lparr>issue_number = n, issue_title = Some ''t'', issue_body = None\<rparr>))"

definition commits_by_round :: "nat \<Rightarrow> error + commit list" where
  "commits_by_round i =
     Inr (if i = 0 then [\<lparr>author_date = ''2024-01-01T09:00:00Z'', commit_url = ''u1''\<rparr>]
          else [\<lparr>author_date = ''2024-01-01T09:00:00Z'', commit_url = ''u1''\<rparr>,
                \<lparr>author_date = ''2024-01-01T10:00:00Z'', commit_url = ''u2''\<rparr>])"

definition no_comments :: "nat \<Rightarrow> int \<Rightarrow> error + comment list" where
  "no_comments i n = Inr []"

definition no_legacy :: "error + unit" where
  "no_legacy = Inl AttributeError"

text \<open>A \<open>requests.post\<close> that is always answered with status 403 and the given quota.\<close>

definition forbidden :: "int \<Rightarrow> nat \<Rightarrow> unit post_result" where
  "forbidden quota n = Replied \<lparr>status_code = 403, rate_remaining = Remaining quota, payload = None\<rparr>"

text \<open>A \<open>requests.post\<close> that is always answered with status 502 and a body that is not JSON.\<close>

definition bad_gateway :: "nat \<Rightarrow> unit post_result" where
  "bad_gateway n = RepliedNotJson 502 Absent"

text \<open>
  A paginated query with one page of two items and then an empty page; both pages say
  there is a next page.
\<close>

definition two_pages :: "nat \<Rightarrow> string option \<Rightarrow> nat connection response option outcome" where
  "two_pages k cursor =
     Returned (Some \<lparr>status_code = 200, rate_remaining = Remaining 4000,
       payload = Some (if cursor = None
                       then \<lparr>nodes = [1, 2], hasNextPage = True, endCursor = Some ''c1''\<rparr>
                       else \<lparr>nodes = [], hasNextPage = True, endCursor = Some ''c2''\<rparr>)\<rparr>)"

section \<open>Properties of the range-bisection enumerator\<close>

lemma bfs_step_over_cap:
  "count (make_query language (Some s_min) s_max) = Inr total_count \<Longrightarrow> 1000 < total_count \<Longrightarrow>
   bfs_step count fetch language (s_min, s_max) queue all_results =
     (queue @ split_range s_min s_max, all_results)"
  by (simp add: bfs_step_def)

text \<open>
  C1, as stated, fails: the range \<open>[5, 5]\<close> with a count of 1001 is popped and nothing is
  put on the queue, so it is not split into two sub-ranges.
\<close>

theorem split_missing_counterexample:
  "bfs_step over_cap no_repos ''Python'' (5, Some 5) [] [] = ([], [])"
  by (simp add: bfs_step_def over_cap_def)

text \<open>
  C1, amended: a range whose count is above 1000 and whose midpoint lies strictly above
  its lower bound (which is always so when the upper end is open) is replaced by exactly
  the two ranges \<open>[low, mid]\<close> and \<open>[mid + 1, high]\<close>, put at the end of the queue; their
  union is the range and they share no value. With an open upper end \<open>mid\<close> is
  \<open>low + 5000\<close>, else it is the floor of the mean of the two bounds.
\<close>

theorem split_partitions_range:
  assumes "count (make_query language (Some s_min) s_max) = Inr total_count"
    and "1000 < total_count"
    and "case s_max of None \<Rightarrow> True | Some hi \<Rightarrow> s_min < (s_min + hi) div 2"
  shows "bfs_step count fetch language (s_min, s_max) queue all_results =
           (queue @ [(s_min, Some (midpoint s_min s_max)), (midpoint s_min s_max + 1, s_max)],
            all_results)
       \<and> range_set (s_min, Some (midpoint s_min s_max)) \<union> range_set (midpoint s_min s_max + 1, s_max)
           = range_set (s_min, s_max)
       \<and> range_set (s_min, Some (midpoint s_min s_max)) \<inter> range_set (midpoint s_min s_max + 1, s_max)
           = {}"
proof (cases s_max)
  case None
  have "split_range s_min None = [(s_min, Some (s_min + 5000)), (s_min + 5000 + 1, None)]"
    by simp
  with None assms(1,2) show ?thesis
    by (auto simp: bfs_step_over_cap)
next
  case (Some hi)
  with assms(3) have lt: "s_min < (s_min + hi) div 2" by simp
  then have le: "(s_min + hi) div 2 \<le> hi" by linarith
  from lt have "split_range s_min (Some hi) =
      [(s_min, Some ((s_min + hi) div 2)), ((s_min + hi) div 2 + 1, Some hi)]"
    by (simp add: Let_def)
  with Some assms(1,2) have step: "bfs_step count fetch language (s_min, s_max) queue all_results =
      (queue @ [(s_min, Some (midpoint s_min s_max)), (midpoint s_min s_max + 1, s_max)], all_results)"
    by (simp add: bfs_step_over_cap)
  from lt le have "{s_min..(s_min + hi) div 2} \<union> {(s_min + hi) div 2 + 1..hi} = {s_min..hi}"
    by auto
  moreover have "{s_min..(s_min + hi) div 2} \<inter> {(s_min + hi) div 2 + 1..hi} = {}"
    by auto
  ultimately show ?thesis using Some step by simp
qed

theorem split_partitions_range_witness:
  "bfs_step over_cap no_repos ''Python'' (0, Some 10) [] [] = ([(0, Some 5), (6, Some 10)], [])
   \<and> range_set (0, Some 5) \<union> range_set (6, Some 10) = range_set (0, Some 10)
   \<and> range_set (0, Some 5) \<inter> range_set (6, Some 10) = {}"
  using split_partitions_range [of over_cap "''Python''" 0 "Some 10" 1001 no_repos "[]" "[]"]
  by (simp add: over_cap_def)

text \<open>
  C2: when the count of the popped range is above 1000 and the midpoint computed for it
  does not lie strictly above its lower bound, the iteration leaves the queue as it is
  after the pop and the results as they are: nothing is put on the queue, the range
  itself included, and the loop goes on with the rest of the queue.
\<close>

theorem degenerate_split_dropped:
  assumes "count t (make_query language (Some s_min) s_max) = Inr total_count"
    and "1000 < total_count"
    and "midpoint s_min s_max \<le> s_min"
  shows "bfs_step (count t) (fetch t) language (s_min, s_max) queue all_results = (queue, all_results)
       \<and> bfs_loop (Suc fuel) count fetch language t ((s_min, s_max) # queue) all_results
           = bfs_loop fuel count fetch language (Suc t) queue all_results"
proof -
  from assms(3) have "split_range s_min s_max = []"
    by (cases s_max) (simp_all add: Let_def)
  with assms(1,2) have "bfs_step (count t) (fetch t) language (s_min, s_max) queue all_results
      = (queue, all_results)"
    by (simp add: bfs_step_over_cap)
  then show ?thesis by simp
qed

theorem degenerate_split_dropped_witness:
  "bfs_step over_cap no_repos ''Go'' (7, Some 8) [(20, None)] [''r''] = ([(20, None)], [''r''])
   \<and> bfs_loop 3 (\<lambda>t. over_cap) (\<lambda>t. no_repos) ''Go'' 0 [(7, Some 8), (9, Some 9)] [''r'']
       = Some [''r'']"
  using degenerate_split_dropped [of "\<lambda>t. over_cap" 0 "''Go''" 7 "Some 8" 1001 "\<lambda>t. no_repos" "[(20, None)]" "[''r'']" 2]
        degenerate_split_dropped [of "\<lambda>t. over_cap" 0 "''Go''" 7 "Some 8" 1001 "\<lambda>t. no_repos" "[(9, Some 9)]" "[''r'']" 2]
        degenerate_split_dropped [of "\<lambda>t. over_cap" 1 "''Go''" 9 "Some 9" 1001 "\<lambda>t. no_repos" "[]" "[''r'']" 1]
  by (simp add: over_cap_def numeral_3_eq_3)

section \<open>Properties of the tag and version resolver\<close>

subsection \<open>The version pattern on names with \<open>v2.5.1\<close>\<close>

lemma takeWhile_before_v: "takeWhile is_digit (xs @ CHR ''v'' # r) = takeWhile is_digit xs"
  by (induction xs) (simp_all add: is_digit_def)

lemma match_here_before_v: "match_here (xs @ CHR ''v'' # r) = match_here xs"
proof (cases "dropWhile is_digit xs")
  case Nil
  then have "\<forall>x\<in>set xs. is_digit x" by (simp add: dropWhile_eq_Nil_conv)
  then have "dropWhile is_digit (xs @ CHR ''v'' # r) = dropWhile is_digit (CHR ''v'' # r)"
    by (simp add: dropWhile_append2)
  then have dw: "dropWhile is_digit (xs @ CHR ''v'' # r) = CHR ''v'' # r"
    by (simp add: is_digit_def)
  show ?thesis
    unfolding match_here_def takeWhile_before_v dw Nil by (simp add: Let_def)
next
  case (Cons c rest)
  then have "dropWhile is_digit xs \<noteq> []" by simp
  then obtain x where "x \<in> set xs" and "\<not> is_digit x"
    by (auto simp: dropWhile_eq_Nil_conv)
  then have "dropWhile is_digit (xs @ CHR ''v'' # r) = dropWhile is_digit xs @ CHR ''v'' # r"
    by (rule dropWhile_append1)
  with Cons have dw: "dropWhile is_digit (xs @ CHR ''v'' # r) = c # rest @ CHR ''v'' # r"
    by simp
  show ?thesis
    unfolding match_here_def takeWhile_before_v dw Cons by (simp add: Let_def takeWhile_before_v)
qed

lemma version_search_before_v:
  "version_search before = None \<Longrightarrow> version_search (before @ CHR ''v'' # r) = version_search r"
proof (induction before)
  case Nil
  have "match_here (CHR ''v'' # r) = None" by (simp add: match_here_def is_digit_def)
  then show ?case by simp
next
  case (Cons c cs)
  from Cons.prems have m: "match_here (c # cs) = None" and s: "version_search cs = None"
    by (simp_all split: option.splits)
  have "match_here ((c # cs) @ CHR ''v'' # r) = None"
    using m by (simp only: match_here_before_v)
  with Cons.IH [OF s] show ?case by simp
qed

lemma version_search_2_5_1: "version_search (''2.5.1'' @ behind) = Some ''2.5''"
  by (simp add: match_here_def is_digit_def)

lemma version_search_v2_5_1:
  "version_search before = None \<Longrightarrow> version_search (before @ ''v2.5.1'' @ behind) = Some ''2.5''"
  using version_search_before_v [of before "''2.5.1'' @ behind"] version_search_2_5_1 [of behind]
  by simp

subsection \<open>Exact match\<close>

lemma load_tags_cache_loaded:
  "tags_cache_loaded self \<Longrightarrow> load_tags_cache tag_refs committed_date parse_ts self = self"
  by (simp add: load_tags_cache_def)

lemma version_body_exact:
  assumes "committed_date commit_sha = Inr commit_date"
    and "filter (\<lambda>t. tag_oid t = commit_sha) tags = exact # others"
  shows "version_body committed_date parse_ts (Some tags) commit_sha
           = Inr (version_search (tag_name exact))"
proof (cases tags)
  case Nil
  with assms(2) show ?thesis by simp
next
  case (Cons newest older)
  with assms show ?thesis
    by (simp add: version_body_def split: option.splits)
qed

text \<open>
  C3, as stated, fails: the search takes the leftmost match of the pattern, so a tag
  named \<open>1.0-v2.5.1\<close> that points at the commit resolves to \<open>1.0\<close>.
\<close>

theorem leftmost_version_counterexample:
  "contains ''v2.5.1'' ''1.0-v2.5.1''
   \<and> get_version_at_commit (Inr None) (commit_dated ''2024-03-10T00:00:00Z'') dateutil_timestamp
       (loaded_repo [\<lparr>tag_name = ''1.0-v2.5.1'', tag_oid = ''abc'',
                      tag_date = ''2024-03-10T00:00:00Z''\<rparr>]) ''abc''
     = (Some ''1.0'',
        loaded_repo [\<lparr>tag_name = ''1.0-v2.5.1'', tag_oid = ''abc'',
                      tag_date = ''2024-03-10T00:00:00Z''\<rparr>])"
  by (simp add: get_version_at_commit_def load_tags_cache_def loaded_repo_def version_body_def
      commit_dated_def match_here_def is_digit_def)

text \<open>
  C3, amended: with a loaded cache, when the query for the commit's date raises no
  exception and the first tag in cache order whose target is the commit has a name of
  the form \<open>before @ "v2.5.1" @ behind\<close> in which the pattern matches nowhere in \<open>before\<close>,
  \<open>get_version_at_commit\<close> returns \<open>2.5\<close> and leaves the repository object as it is.
\<close>

theorem exact_match_version:
  assumes "tags_cache_loaded self" and "tags_cache self = Some tags"
    and "committed_date commit_sha = Inr commit_date"
    and "filter (\<lambda>t. tag_oid t = commit_sha) tags = exact # others"
    and "tag_name exact = before @ ''v2.5.1'' @ behind"
    and "version_search before = None"
  shows "get_version_at_commit tag_refs committed_date parse_ts self commit_sha = (Some ''2.5'', self)"
proof -
  have "version_search (tag_name exact) = Some ''2.5''"
    using assms(5,6) version_search_v2_5_1 by simp
  with version_body_exact [of committed_date commit_sha commit_date tags exact others parse_ts]
    assms(1-4) show ?thesis
    by (simp add: get_version_at_commit_def load_tags_cache_loaded)
qed

theorem exact_match_version_witness:
  "get_version_at_commit (Inr None) (commit_dated ''2024-03-10T00:00:00Z'') dateutil_timestamp
     (loaded_repo [\<lparr>tag_name = ''v3.0.0'', tag_oid = ''def'', tag_date = ''2024-05-01T00:00:00Z''\<rparr>,
                   \<lparr>tag_name = ''release-v2.5.1'', tag_oid = ''abc'', tag_date = ''2024-03-10T00:00:00Z''\<rparr>])
     ''abc''
   = (Some ''2.5'',
      loaded_repo [\<lparr>tag_name = ''v3.0.0'', tag_oid = ''def'', tag_date = ''2024-05-01T00:00:00Z''\<rparr>,
                   \<lparr>tag_name = ''release-v2.5.1'', tag_oid = ''abc'', tag_date = ''2024-03-10T00:00:00Z''\<rparr>])"
  using exact_match_version [of
      "loaded_repo [\<lparr>tag_name = ''v3.0.0'', tag_oid = ''def'', tag_date = ''2024-05-01T00:00:00Z''\<rparr>,
                   \<lparr>tag_name = ''release-v2.5.1'', tag_oid = ''abc'', tag_date = ''2024-03-10T00:00:00Z''\<rparr>]"
      "[\<lparr>tag_name = ''v3.0.0'', tag_oid = ''def'', tag_date = ''2024-05-01T00:00:00Z''\<rparr>,
        \<lparr>tag_name = ''release-v2.5.1'', tag_oid = ''abc'', tag_date = ''2024-03-10T00:00:00Z''\<rparr>]"
      "commit_dated ''2024-03-10T00:00:00Z''" "''abc''" "Some ''2024-03-10T00:00:00Z''"
      "\<lparr>tag_name = ''release-v2.5.1'', tag_oid = ''abc'', tag_date = ''2024-03-10T00:00:00Z''\<rparr>"
      "[]" "''release-''" "[]" "Inr None" dateutil_timestamp]
  by (simp add: loaded_repo_def commit_dated_def match_here_def is_digit_def)

text \<open>
  The two other conditions of the amended statement are needed as well: an exception of
  the query for the commit's date is caught and gives "not found", and of two tags that
  point at the commit the first in cache order decides.
\<close>

lemma commit_date_failure_not_found:
  assumes "tags_cache_loaded self" and "committed_date commit_sha = Inl e"
  shows "get_version_at_commit tag_refs committed_date parse_ts self commit_sha = (None, self)"
  using assms by (simp add: get_version_at_commit_def load_tags_cache_loaded version_body_def)

lemma first_exact_match_wins:
  "get_version_at_commit (Inr None) (commit_dated ''2024-03-10T00:00:00Z'') dateutil_timestamp
     (loaded_repo [\<lparr>tag_name = ''nightly-7.1'', tag_oid = ''abc'', tag_date = ''2024-03-10T00:00:00Z''\<rparr>,
                   \<lparr>tag_name = ''v2.5.1'', tag_oid = ''abc'', tag_date = ''2024-03-10T00:00:00Z''\<rparr>])
     ''abc''
   = (Some ''7.1'',
      loaded_repo [\<lparr>tag_name = ''nightly-7.1'', tag_oid = ''abc'', tag_date = ''2024-03-10T00:00:00Z''\<rparr>,
                   \<lparr>tag_name = ''v2.5.1'', tag_oid = ''abc'', tag_date = ''2024-03-10T00:00:00Z''\<rparr>])"
  by (simp add: get_version_at_commit_def load_tags_cache_def loaded_repo_def version_body_def
      commit_dated_def match_here_def is_digit_def)

text \<open>
  When the first exact match has a name without a version, the result is "not found":
  the second try and the fallback are not reached.
\<close>

lemma unparseable_exact_match_not_found:
  assumes "tags_cache_loaded self" and "tags_cache self = Some tags"
    and "committed_date commit_sha = Inr commit_date"
    and "filter (\<lambda>t. tag_oid t = commit_sha) tags = exact # others"
    and "version_search (tag_name exact) = None"
  shows "get_version_at_commit tag_refs committed_date parse_ts self commit_sha = (None, self)"
  using version_body_exact [of committed_date commit_sha commit_date tags exact others parse_ts] assms
  by (simp add: get_version_at_commit_def load_tags_cache_loaded)

subsection \<open>Nearest tag by date\<close>

text \<open>
  A cache built by the loader holds only tags whose dates parse: the loader sorts by the
  parsed dates, and a date that does not parse leaves the cache empty.
\<close>

lemma loaded_cache_dates_parse:
  assumes "\<not> tags_cache_loaded self" and "tags_cache self = None"
    and "tags_cache (load_tags_cache tag_refs committed_date parse_ts self) = Some tags"
  shows "\<forall>t\<in>set tags. parse_ts (tag_date t) \<noteq> None"
proof (cases "tags = []")
  case True
  then show ?thesis by simp
next
  case False
  with assms obtain refs collected where
    "collect_tags committed_date refs = Inr collected"
    and sorted: "sort_newest_first parse_ts collected = Inr tags"
    by (auto simp: load_tags_cache_def split: sum.splits option.splits if_splits)
  from sorted have "list_all (\<lambda>t. parse_ts (tag_date t) \<noteq> None) collected"
    and "tags = sort_key (\<lambda>t. - the (parse_ts (tag_date t))) collected"
    by (auto simp: sort_newest_first_def split: if_splits)
  then show ?thesis by (simp add: list_all_iff)
qed

lemma py_min_snoc:
  "py_min key best (xs @ [x]) =
     (if key x < key (py_min key best xs) then x else py_min key best xs)"
  by (induction xs arbitrary: best) simp_all

lemma py_min_first_minimum:
  "\<exists>i<length (b # xs). py_min key b xs = (b # xs) ! i
     \<and> (\<forall>j<length (b # xs). key ((b # xs) ! i) \<le> key ((b # xs) ! j))
     \<and> (\<forall>j<i. key ((b # xs) ! i) < key ((b # xs) ! j))"
proof (induction xs rule: rev_induct)
  case Nil
  show ?case by simp
next
  case (snoc x xs)
  then obtain i where i: "i < length (b # xs)" and m: "py_min key b xs = (b # xs) ! i"
    and least: "\<forall>j<length (b # xs). key ((b # xs) ! i) \<le> key ((b # xs) ! j)"
    and first: "\<forall>j<i. key ((b # xs) ! i) < key ((b # xs) ! j)"
    by blast
  have nth_old: "\<And>j. j < length (b # xs) \<Longrightarrow> (b # xs @ [x]) ! j = (b # xs) ! j"
    by (metis append_Cons nth_append)
  have nth_new: "(b # xs @ [x]) ! length (b # xs) = x"
    by (metis append_Cons nth_append_length)
  show ?case
  proof (cases "key x < key (py_min key b xs)")
    case True
    let ?n = "length (b # xs)"
    have "py_min key b (xs @ [x]) = (b # xs @ [x]) ! ?n"
      using True nth_new by (simp only: py_min_snoc if_True)
    moreover have "\<forall>j<length (b # xs @ [x]). key ((b # xs @ [x]) ! ?n) \<le> key ((b # xs @ [x]) ! j)"
    proof (intro allI impI)
      fix j assume "j < length (b # xs @ [x])"
      then consider "j < ?n" | "j = ?n" by fastforce
      then show "key ((b # xs @ [x]) ! ?n) \<le> key ((b # xs @ [x]) ! j)"
      proof cases
        case 1
        with least have "key ((b # xs) ! i) \<le> key ((b # xs) ! j)" by blast
        with True m 1 show ?thesis by (simp only: nth_old nth_new)
      next
        case 2
        then show ?thesis by simp
      qed
    qed
    moreover have "\<forall>j<?n. key ((b # xs @ [x]) ! ?n) < key ((b # xs @ [x]) ! j)"
    proof (intro allI impI)
      fix j assume j: "j < ?n"
      with least have "key ((b # xs) ! i) \<le> key ((b # xs) ! j)" by blast
      with True m j show "key ((b # xs @ [x]) ! ?n) < key ((b # xs @ [x]) ! j)"
        by (simp only: nth_old nth_new)
    qed
    moreover have "?n < length (b # xs @ [x])" by simp
    ultimately show ?thesis by blast
  next
    case False
    have "py_min key b (xs @ [x]) = (b # xs @ [x]) ! i"
      using False m i by (simp only: py_min_snoc if_False nth_old)
    moreover have "\<forall>j<length (b # xs @ [x]). key ((b # xs @ [x]) ! i) \<le> key ((b # xs @ [x]) ! j)"
    proof (intro allI impI)
      fix j assume "j < length (b # xs @ [x])"
      then consider "j < length (b # xs)" | "j = length (b # xs)" by fastforce
      then show "key ((b # xs @ [x]) ! i) \<le> key ((b # xs @ [x]) ! j)"
      proof cases
        case 1
        with least i show ?thesis by (simp only: nth_old)
      next
        case 2
        from False m have "key ((b # xs) ! i) \<le> key x" by simp
        with 2 i show ?thesis by (simp only: nth_old nth_new)
      qed
    qed
    moreover have "\<forall>j<i. key ((b # xs @ [x]) ! i) < key ((b # xs @ [x]) ! j)"
    proof (intro allI impI)
      fix j assume j: "j < i"
      with i have "j < length (b # xs)" by simp
      with first j i show "key ((b # xs @ [x]) ! i) < key ((b # xs @ [x]) ! j)"
        by (simp only: nth_old)
    qed
    moreover have "i < length (b # xs @ [x])" using i by simp
    ultimately show ?thesis by blast
  qed
qed

lemma those_map_total:
  "\<forall>x\<in>set xs. f x \<noteq> None \<Longrightarrow> those (map f xs) = Some (map (\<lambda>x. the (f x)) xs)"
  by (induction xs) auto

lemma closest_tag_first_minimum:
  assumes "tags \<noteq> []" and "\<forall>t\<in>set tags. parse_ts (tag_date t) \<noteq> None"
  shows "\<exists>i<length tags. closest_tag parse_ts commit_timestamp tags = Inr (tags ! i)
     \<and> (\<forall>j<length tags. tag_distance parse_ts commit_timestamp (tags ! i)
                           \<le> tag_distance parse_ts commit_timestamp (tags ! j))
     \<and> (\<forall>j<i. tag_distance parse_ts commit_timestamp (tags ! i)
                 < tag_distance parse_ts commit_timestamp (tags ! j))"
proof -
  let ?pair = "\<lambda>t. (t, tag_distance parse_ts commit_timestamp t)"
  from assms(1) obtain first others where tags: "tags = first # others"
    by (cases tags) auto
  have zipped: "zip tags (map (\<lambda>stamp. \<bar>stamp - commit_timestamp\<bar>)
                     (map (\<lambda>t. the (parse_ts (tag_date t))) tags)) = map ?pair tags"
    by (induction tags) (simp_all add: tag_distance_def)
  have closest: "closest_tag parse_ts commit_timestamp tags
      = Inr (fst (py_min snd (?pair first) (map ?pair others)))"
    using those_map_total [OF assms(2)] zipped tags
    by (simp add: closest_tag_def)
  obtain i where i: "i < length (?pair first # map ?pair others)"
    and m: "py_min snd (?pair first) (map ?pair others) = (?pair first # map ?pair others) ! i"
    and least: "\<forall>j<length (?pair first # map ?pair others).
        snd ((?pair first # map ?pair others) ! i) \<le> snd ((?pair first # map ?pair others) ! j)"
    and first: "\<forall>j<i. snd ((?pair first # map ?pair others) ! i)
        < snd ((?pair first # map ?pair others) ! j)"
    using py_min_first_minimum [of "?pair first" "map ?pair others" snd] by blast
  have list: "?pair first # map ?pair others = map ?pair tags"
    using tags by simp
  have len: "i < length tags" using i tags by simp
  have nth: "\<And>j. j < length tags \<Longrightarrow> (map ?pair tags) ! j = ?pair (tags ! j)"
    by simp
  have "closest_tag parse_ts commit_timestamp tags = Inr (tags ! i)"
    using closest m len by (simp only: list nth fst_conv)
  moreover have "\<forall>j<length tags. tag_distance parse_ts commit_timestamp (tags ! i)
      \<le> tag_distance parse_ts commit_timestamp (tags ! j)"
    using least len unfolding list by (simp add: nth)
  moreover have "\<forall>j<i. tag_distance parse_ts commit_timestamp (tags ! i)
      < tag_distance parse_ts commit_timestamp (tags ! j)"
    using first len unfolding list by (simp add: nth)
  ultimately show ?thesis using len by blast
qed

text \<open>
  C5: with a loaded, non-empty cache whose dates parse, no tag pointing at the commit and
  a known commit date, the second try selects the tag at the least distance in time from
  the commit, the first such tag in cache order; \<open>get_version_at_commit\<close> returns the
  version in that tag's name, or, when the name has none, what the newest tag's name
  gives.
\<close>

theorem nearest_tag_selected:
  assumes "tags_cache_loaded self" and "tags_cache self = Some tags" and "tags \<noteq> []"
    and "filter (\<lambda>t. tag_oid t = commit_sha) tags = []"
    and "committed_date commit_sha = Inr (Some commit_date)" and "commit_date \<noteq> []"
    and "parse_ts commit_date = Some commit_timestamp"
    and "\<forall>t\<in>set tags. parse_ts (tag_date t) \<noteq> None"
  shows "\<exists>i<length tags.
       closest_tag parse_ts commit_timestamp tags = Inr (tags ! i)
     \<and> (\<forall>j<length tags. tag_distance parse_ts commit_timestamp (tags ! i)
                           \<le> tag_distance parse_ts commit_timestamp (tags ! j))
     \<and> (\<forall>j<i. tag_distance parse_ts commit_timestamp (tags ! i)
                 < tag_distance parse_ts commit_timestamp (tags ! j))
     \<and> get_version_at_commit tag_refs committed_date parse_ts self commit_sha =
         (case version_search (tag_name (tags ! i)) of
            Some version \<Rightarrow> Some version
          | None \<Rightarrow> version_search (tag_name (tags ! 0)),
          self)"
proof -
  from closest_tag_first_minimum [OF assms(3,8), of commit_timestamp]
  obtain i where len: "i < length tags"
    and closest: "closest_tag parse_ts commit_timestamp tags = Inr (tags ! i)"
    and least: "\<forall>j<length tags. tag_distance parse_ts commit_timestamp (tags ! i)
        \<le> tag_distance parse_ts commit_timestamp (tags ! j)"
    and first: "\<forall>j<i. tag_distance parse_ts commit_timestamp (tags ! i)
        < tag_distance parse_ts commit_timestamp (tags ! j)"
    by blast
  from assms(3) obtain newest older where tags: "tags = newest # older"
    by (cases tags) auto
  have try2: "second_try parse_ts (Some commit_date) tags = Inr (version_search (tag_name (tags ! i)))"
    using assms(3,6,7) closest by (simp add: second_try_def)
  have "version_body committed_date parse_ts (Some tags) commit_sha =
      Inr (case version_search (tag_name (tags ! i)) of
             Some version \<Rightarrow> Some version
           | None \<Rightarrow> version_search (tag_name (tags ! 0)))"
    using assms(4,5) try2 unfolding tags
    by (simp add: version_body_def split: option.splits)
  then have "get_version_at_commit tag_refs committed_date parse_ts self commit_sha =
      (case version_search (tag_name (tags ! i)) of
         Some version \<Rightarrow> Some version
       | None \<Rightarrow> version_search (tag_name (tags ! 0)), self)"
    using assms(1,2) by (simp add: get_version_at_commit_def load_tags_cache_loaded)
  with len closest least first show ?thesis by blast
qed

lemma ts_commit: "dateutil_timestamp ''2024-03-10T00:00:00Z'' = Some 1710028800"
  by (simp add: dateutil_timestamp_def utc_seconds_def civil_seconds_def is_digit_def
      read_digits_def digit_value_def days_from_civil_def days_in_month_def leap_year_def)

lemma ts_newer: "dateutil_timestamp ''2024-03-20T00:00:00Z'' = Some 1710892800"
  by (simp add: dateutil_timestamp_def utc_seconds_def civil_seconds_def is_digit_def
      read_digits_def digit_value_def days_from_civil_def days_in_month_def leap_year_def)

lemma ts_older: "dateutil_timestamp ''2024-03-08T00:00:00Z'' = Some 1709856000"
  by (simp add: dateutil_timestamp_def utc_seconds_def civil_seconds_def is_digit_def
      read_digits_def digit_value_def days_from_civil_def days_in_month_def leap_year_def)

text \<open>
  The two tags of the example lie 10 days after and 2 days before the commit; the tag 2
  days away is selected.
\<close>

theorem nearest_tag_selected_witness:
  "tag_distance dateutil_timestamp 1710028800
       \<lparr>tag_name = ''v1.0.0'', tag_oid = ''aaa'', tag_date = ''2024-03-20T00:00:00Z''\<rparr> = 10 * 86400
   \<and> tag_distance dateutil_timestamp 1710028800
       \<lparr>tag_name = ''v0.9.3'', tag_oid = ''bbb'', tag_date = ''2024-03-08T00:00:00Z''\<rparr> = 2 * 86400
   \<and> get_version_at_commit (Inr None) (commit_dated ''2024-03-10T00:00:00Z'') dateutil_timestamp
       (loaded_repo [\<lparr>tag_name = ''v1.0.0'', tag_oid = ''aaa'', tag_date = ''2024-03-20T00:00:00Z''\<rparr>,
                     \<lparr>tag_name = ''v0.9.3'', tag_oid = ''bbb'', tag_date = ''2024-03-08T00:00:00Z''\<rparr>])
       ''ccc''
     = (Some ''0.9'',
        loaded_repo [\<lparr>tag_name = ''v1.0.0'', tag_oid = ''aaa'', tag_date = ''2024-03-20T00:00:00Z''\<rparr>,
                     \<lparr>tag_name = ''v0.9.3'', tag_oid = ''bbb'', tag_date = ''2024-03-08T00:00:00Z''\<rparr>])"
proof -
  let ?a = "\<lparr>tag_name = ''v1.0.0'', tag_oid = ''aaa'', tag_date = ''2024-03-20T00:00:00Z''\<rparr>"
  let ?b = "\<lparr>tag_name = ''v0.9.3'', tag_oid = ''bbb'', tag_date = ''2024-03-08T00:00:00Z''\<rparr>"
  have da: "tag_distance dateutil_timestamp 1710028800 ?a = 864000"
    by (simp add: tag_distance_def ts_newer)
  have db: "tag_distance dateutil_timestamp 1710028800 ?b = 172800"
    by (simp add: tag_distance_def ts_older)
  have "\<exists>i<length [?a, ?b].
       closest_tag dateutil_timestamp 1710028800 [?a, ?b] = Inr ([?a, ?b] ! i)
     \<and> (\<forall>j<length [?a, ?b]. tag_distance dateutil_timestamp 1710028800 ([?a, ?b] ! i)
                           \<le> tag_distance dateutil_timestamp 1710028800 ([?a, ?b] ! j))
     \<and> (\<forall>j<i. tag_distance dateutil_timestamp 1710028800 ([?a, ?b] ! i)
                 < tag_distance dateutil_timestamp 1710028800 ([?a, ?b] ! j))
     \<and> get_version_at_commit (Inr None) (commit_dated ''2024-03-10T00:00:00Z'') dateutil_timestamp
          (loaded_repo [?a, ?b]) ''ccc'' =
         (case version_search (tag_name ([?a, ?b] ! i)) of
            Some version \<Rightarrow> Some version
          | None \<Rightarrow> version_search (tag_name ([?a, ?b] ! 0)),
          loaded_repo [?a, ?b])"
    by (rule nearest_tag_selected [where commit_date = "''2024-03-10T00:00:00Z''"])
       (simp_all add: loaded_repo_def commit_dated_def ts_commit ts_newer ts_older)
  then obtain i where i: "i < length [?a, ?b]"
    and least: "\<forall>j<length [?a, ?b]. tag_distance dateutil_timestamp 1710028800 ([?a, ?b] ! i)
                           \<le> tag_distance dateutil_timestamp 1710028800 ([?a, ?b] ! j)"
    and result: "get_version_at_commit (Inr None) (commit_dated ''2024-03-10T00:00:00Z'')
          dateutil_timestamp (loaded_repo [?a, ?b]) ''ccc'' =
         (case version_search (tag_name ([?a, ?b] ! i)) of
            Some version \<Rightarrow> Some version
          | None \<Rightarrow> version_search (tag_name ([?a, ?b] ! 0)),
          loaded_repo [?a, ?b])"
    by blast
  have "tag_distance dateutil_timestamp 1710028800 ([?a, ?b] ! i)
      \<le> tag_distance dateutil_timestamp 1710028800 ?b"
    using least [rule_format, of 1] by simp
  then have "i \<noteq> 0" using da db by (cases i) simp_all
  with i have "i = 1" by simp
  with result have "get_version_at_commit (Inr None) (commit_dated ''2024-03-10T00:00:00Z'')
          dateutil_timestamp (loaded_repo [?a, ?b]) ''ccc'' = (Some ''0.9'', loaded_repo [?a, ?b])"
    by (simp add: match_here_def is_digit_def)
  with da db show ?thesis by simp
qed

subsection \<open>Exact match without a version\<close>

text \<open>
  Where no tag points at the commit, or the first that does has a version in its name,
  the code resolves as the specification words it.
\<close>

lemma version_body_agrees:
  assumes "case filter (\<lambda>t. tag_oid t = commit_sha) tags of
             exact # _ \<Rightarrow> version_search (tag_name exact) \<noteq> None
           | [] \<Rightarrow> True"
  shows "version_body committed_date parse_ts (Some tags) commit_sha
           = version_body_as_specified committed_date parse_ts (Some tags) commit_sha"
proof (cases "committed_date commit_sha")
  case (Inl e)
  then show ?thesis
    by (simp add: version_body_def version_body_as_specified_def)
next
  case (Inr commit_date)
  show ?thesis
  proof (cases tags)
    case Nil
    with Inr show ?thesis
      by (simp add: version_body_def version_body_as_specified_def)
  next
    case tags: (Cons newest older)
    show ?thesis
    proof (cases "filter (\<lambda>t. tag_oid t = commit_sha) (newest # older)")
      case Nil
      show ?thesis
        by (simp only: version_body_def version_body_as_specified_def Inr tags Nil
            sum.case option.case list.case)
    next
      case (Cons exact others)
      with assms tags obtain version where
        version: "version_search (tag_name exact) = Some version"
        by auto
      show ?thesis
        by (simp only: version_body_def version_body_as_specified_def Inr tags Cons version
            sum.case option.case list.case)
    qed
  qed
qed

text \<open>
  C4 says that an exact match whose name has no version falls through to the nearest tag
  by date and then to the newest tag, so that a version is still returned. The code does
  not do so. Here the cache holds the newer tag \<open>v1.2.0\<close> and the tag \<open>latest\<close>, which
  points at the commit and has no version in its name, and the commit's date is known.
  Resolution as the specification words it goes on: the nearest tag by date is \<open>latest\<close>
  itself, 10 days nearer than \<open>v1.2.0\<close>, and the newest tag then gives \<open>1.2\<close>. The code
  returns \<open>None\<close>.
\<close>

theorem unparseable_exact_match_evaluation:
  "closest_tag dateutil_timestamp 1710028800
       [\<lparr>tag_name = ''v1.2.0'', tag_oid = ''def'', tag_date = ''2024-03-20T00:00:00Z''\<rparr>,
        \<lparr>tag_name = ''latest'', tag_oid = ''abc'', tag_date = ''2024-03-10T00:00:00Z''\<rparr>]
     = Inr \<lparr>tag_name = ''latest'', tag_oid = ''abc'', tag_date = ''2024-03-10T00:00:00Z''\<rparr>
   \<and> version_body_as_specified (commit_dated ''2024-03-10T00:00:00Z'') dateutil_timestamp
       (Some [\<lparr>tag_name = ''v1.2.0'', tag_oid = ''def'', tag_date = ''2024-03-20T00:00:00Z''\<rparr>,
              \<lparr>tag_name = ''latest'', tag_oid = ''abc'', tag_date = ''2024-03-10T00:00:00Z''\<rparr>])
       ''abc''
     = Inr (Some ''1.2'')
   \<and> get_version_at_commit (Inr None) (commit_dated ''2024-03-10T00:00:00Z'') dateutil_timestamp
       (loaded_repo [\<lparr>tag_name = ''v1.2.0'', tag_oid = ''def'', tag_date = ''2024-03-20T00:00:00Z''\<rparr>,
                     \<lparr>tag_name = ''latest'', tag_oid = ''abc'', tag_date = ''2024-03-10T00:00:00Z''\<rparr>])
       ''abc''
     = (None,
        loaded_repo [\<lparr>tag_name = ''v1.2.0'', tag_oid = ''def'', tag_date = ''2024-03-20T00:00:00Z''\<rparr>,
                     \<lparr>tag_name = ''latest'', tag_oid = ''abc'', tag_date = ''2024-03-10T00:00:00Z''\<rparr>])"
proof -
  let ?newer = "\<lparr>tag_name = ''v1.2.0'', tag_oid = ''def'', tag_date = ''2024-03-20T00:00:00Z''\<rparr>"
  let ?exact = "\<lparr>tag_name = ''latest'', tag_oid = ''abc'', tag_date = ''2024-03-10T00:00:00Z''\<rparr>"
  have closest: "closest_tag dateutil_timestamp 1710028800 [?newer, ?exact] = Inr ?exact"
    by (simp add: closest_tag_def ts_commit ts_newer)
  have second: "second_try dateutil_timestamp (Some ''2024-03-10T00:00:00Z'') [?newer, ?exact]
      = Inr None"
    by (simp add: second_try_def ts_commit closest match_here_def is_digit_def)
  have specified: "version_body_as_specified (commit_dated ''2024-03-10T00:00:00Z'')
      dateutil_timestamp (Some [?newer, ?exact]) ''abc'' = Inr (Some ''1.2'')"
    by (simp add: version_body_as_specified_def commit_dated_def second match_here_def
        is_digit_def)
  have code: "get_version_at_commit (Inr None) (commit_dated ''2024-03-10T00:00:00Z'')
      dateutil_timestamp (loaded_repo [?newer, ?exact]) ''abc'' = (None, loaded_repo [?newer, ?exact])"
    by (simp add: get_version_at_commit_def load_tags_cache_def loaded_repo_def version_body_def
        commit_dated_def match_here_def is_digit_def)
  from closest specified code show ?thesis by simp
qed

section \<open>Properties of the instance assembler\<close>

subsection \<open>Hint cutoff\<close>

text \<open>
  What \<open>_extract_hints\<close> returns when the pull request has a commit and all dates are
  read: the hint text joins the bodies of the comments whose \<open>mktime\<close> reading lies
  before the dateutil reading of the first commit's date, in order; the all-hints text
  joins all bodies.
\<close>

lemma hint_loop_filter:
  "\<forall>c\<in>set cs. mktime_ts (updatedAt c) \<noteq> None \<Longrightarrow>
   hint_loop mktime_ts commit_time cs hints everything =
     Inr (hints @ filter (\<lambda>c. the (mktime_ts (updatedAt c)) < commit_time) cs, everything @ cs)"
  by (induction cs arbitrary: hints everything) auto

lemma extract_hints_cutoff:
  assumes "pull_commits = Inr (first # others)"
    and "parse_ts (author_date first) = Some commit_time"
    and "issue_comments = Inr comments"
    and "\<forall>c\<in>set comments. mktime_ts (updatedAt c) \<noteq> None"
  shows "extract_hints parse_ts mktime_ts pull_commits issue_comments =
     Inr (join newline (map comment_body
            (filter (\<lambda>c. the (mktime_ts (updatedAt c)) < commit_time) comments)),
          join newline (map comment_body comments),
          map commit_url (first # others))"
  using assms by (simp add: extract_hints_def hint_loop_filter)

text \<open>
  In a process whose local zone is UTC both readings are the UTC instant, and the cutoff
  is the comparison of the two instants.
\<close>

text \<open>
  The clocks on dates of the two forms: a date that does not exist is refused, an author
  date with a zone is read by dateutil and refused by the format of \<open>strptime\<close>, and a
  leap second is refused by dateutil and carried over by \<open>mktime\<close>.
\<close>

lemma clock_examples:
  "utc_seconds ''2024-02-30T00:00:00Z'' = None"
  "dateutil_timestamp ''2024-01-01T17:00:00+08:00'' = Some 1704099600"
  "strptime_mktime 0 ''2024-01-01T17:00:00+08:00'' = None"
  "dateutil_timestamp ''2024-01-01T09:00:60Z'' = None"
  "strptime_mktime 0 ''2024-01-01T09:00:60Z'' = Some 1704099660"
  by (simp_all add: dateutil_timestamp_def utc_seconds_def strptime_mktime_def zone_seconds_def
      civil_seconds_def is_digit_def read_digits_def digit_value_def days_from_civil_def
      days_in_month_def leap_year_def)

lemma civil_seconds_leap_second:
  "civil_seconds 59 stem = Some seconds \<Longrightarrow> civil_seconds 61 stem = Some seconds"
  by (simp add: civil_seconds_def Let_def split: if_splits)

lemma strptime_mktime_utc:
  "utc_seconds s = Some seconds \<Longrightarrow> strptime_mktime 0 s = Some seconds"
  by (auto simp: utc_seconds_def strptime_mktime_def civil_seconds_leap_second split: if_splits)

lemma dateutil_timestamp_utc:
  "utc_seconds s = Some seconds \<Longrightarrow> dateutil_timestamp s = Some seconds"
  by (simp add: dateutil_timestamp_def)

lemma hint_cutoff_same_clock:
  assumes "pull_commits = Inr (first # others)"
    and "utc_seconds (author_date first) = Some T2"
    and "issue_comments = Inr comments"
    and "\<forall>c\<in>set comments. utc_seconds (updatedAt c) \<noteq> None"
  shows "extract_hints dateutil_timestamp (strptime_mktime 0) pull_commits issue_comments =
     Inr (join newline (map comment_body
            (filter (\<lambda>c. the (utc_seconds (updatedAt c)) < T2) comments)),
          join newline (map comment_body comments),
          map commit_url (first # others))"
proof -
  have same: "strptime_mktime 0 (updatedAt c) = utc_seconds (updatedAt c)"
    if "c \<in> set comments" for c
  proof -
    from that assms(4) obtain seconds where "utc_seconds (updatedAt c) = Some seconds"
      by auto
    then show ?thesis by (simp add: strptime_mktime_utc)
  qed
  then have "\<forall>c\<in>set comments. strptime_mktime 0 (updatedAt c) \<noteq> None"
    using assms(4) by simp
  moreover have "filter (\<lambda>c. the (strptime_mktime 0 (updatedAt c)) < T2) comments
      = filter (\<lambda>c. the (utc_seconds (updatedAt c)) < T2) comments"
    using same by (auto intro: filter_cong)
  ultimately show ?thesis
    using extract_hints_cutoff [of pull_commits first others dateutil_timestamp T2
        issue_comments comments "strptime_mktime 0"] assms(1-3)
    by (simp add: dateutil_timestamp_utc)
qed

lemma ts_0900: "utc_seconds ''2024-01-01T09:00:00Z'' = Some 1704099600"
  by (simp add: utc_seconds_def civil_seconds_def is_digit_def read_digits_def digit_value_def
      days_from_civil_def days_in_month_def leap_year_def)

lemma ts_1000: "utc_seconds ''2024-01-01T10:00:00Z'' = Some 1704103200"
  by (simp add: utc_seconds_def civil_seconds_def is_digit_def read_digits_def digit_value_def
      days_from_civil_def days_in_month_def leap_year_def)

lemma ts_0830: "utc_seconds ''2024-01-01T08:30:00Z'' = Some 1704097800"
  by (simp add: utc_seconds_def civil_seconds_def is_digit_def read_digits_def digit_value_def
      days_from_civil_def days_in_month_def leap_year_def)

text \<open>
  C6 says that a comment updated before the first commit's author date is in the hint
  text and the all-hints text, and one updated after it is in the all-hints text only.
  The code does not do so where the local zone is not UTC. In a process 8 hours east of
  UTC, a comment updated at 10:00Z, one hour after the first commit (09:00Z), is put
  into the hint text. In a process 5 hours west of UTC, a comment updated at 08:30Z,
  half an hour before the first commit, is left out of the hint text.
\<close>

theorem hint_cutoff_local_clock_evaluation:
  "extract_hints dateutil_timestamp (strptime_mktime (8 * 3600))
     (Inr [\<lparr>author_date = ''2024-01-01T09:00:00Z'', commit_url = ''u1''\<rparr>])
     (Inr [\<lparr>comment_body = ''fixed by the patch'', updatedAt = ''2024-01-01T10:00:00Z''\<rparr>])
   = Inr (''fixed by the patch'', ''fixed by the patch'', [''u1''])
   \<and> extract_hints dateutil_timestamp (strptime_mktime (- 5 * 3600))
     (Inr [\<lparr>author_date = ''2024-01-01T09:00:00Z'', commit_url = ''u1''\<rparr>])
     (Inr [\<lparr>comment_body = ''steps to reproduce'', updatedAt = ''2024-01-01T08:30:00Z''\<rparr>])
   = Inr ('''', ''steps to reproduce'', [''u1''])"
proof -
  have commit: "dateutil_timestamp ''2024-01-01T09:00:00Z'' = Some 1704099600"
    by (simp add: dateutil_timestamp_utc ts_0900)
  have east: "strptime_mktime 28800 ''2024-01-01T10:00:00Z'' = Some 1704074400"
    by (simp add: strptime_mktime_def civil_seconds_def is_digit_def read_digits_def
        digit_value_def days_from_civil_def days_in_month_def leap_year_def)
  have west: "strptime_mktime (- 18000) ''2024-01-01T08:30:00Z'' = Some 1704115800"
    by (simp add: strptime_mktime_def civil_seconds_def is_digit_def read_digits_def
        digit_value_def days_from_civil_def days_in_month_def leap_year_def)
  show ?thesis
    by (simp add: extract_hints_def commit east west)
qed

subsection \<open>Patch splitting\<close>

lemma contains_sublist: "contains needle s \<longleftrightarrow> sublist needle s"
  by (induction s) (simp_all add: sublist_Cons_right)

lemma is_test_path_sublist:
  "is_test_path p \<longleftrightarrow>
     sublist ''test'' p \<or> sublist ''tests'' p \<or> sublist ''e2e'' p \<or> sublist ''testing'' p"
  by (simp add: is_test_path_def test_words_def contains_sublist)

lemma split_loop_filter:
  "split_loop hunks patch_fix patch_test =
     (patch_fix @ concat (map rendered (filter (\<lambda>h. \<not> is_test_path (path h)) hunks)),
      patch_test @ concat (map rendered (filter (\<lambda>h. is_test_path (path h)) hunks)))"
  by (induction hunks arbitrary: patch_fix patch_test) simp_all

text \<open>
  C7: when the diff is fetched and parsed, the fix-patch is the concatenation, in order,
  of the files whose path contains none of the four test words, and the test-patch is
  the concatenation of the files whose path contains one of them (as a contiguous
  substring); every file goes to exactly one of the two.
\<close>

theorem patches_split_by_path:
  assumes "wrapped_requests_get get 10 0 = Some patch" and "PatchSet patch = Inr hunks"
  shows "extract_patches get PatchSet =
           Inr (concat (map rendered (filter (\<lambda>h. \<not> is_test_path (path h)) hunks)),
                concat (map rendered (filter (\<lambda>h. is_test_path (path h)) hunks)))
       \<and> (\<forall>h\<in>set hunks. is_test_path (path h) \<longleftrightarrow>
             sublist ''test'' (path h) \<or> sublist ''tests'' (path h)
             \<or> sublist ''e2e'' (path h) \<or> sublist ''testing'' (path h))"
proof -
  have "extract_patches get PatchSet = Inr (split_loop hunks [] [])"
    using assms by (simp add: extract_patches_def)
  then show ?thesis
    by (simp add: split_loop_filter is_test_path_sublist)
qed

text \<open>The diff with \<open>src/app.py\<close> and \<open>tests/test_app.py\<close>.\<close>

theorem patches_split_by_path_witness:
  "extract_patches (served ''diff --git'') two_files =
     Inr (''[hunk of src/app.py]'', ''[hunk of tests/test_app.py]'')"
proof -
  have got: "wrapped_requests_get (served ''diff --git'') 10 0 = Some ''diff --git''"
    by (simp add: wrapped_requests_get.simps served_def)
  have files: "two_files ''diff --git'' =
     Inr [\<lparr>path = ''src/app.py'', rendered = ''[hunk of src/app.py]''\<rparr>,
          \<lparr>path = ''tests/test_app.py'', rendered = ''[hunk of tests/test_app.py]''\<rparr>]"
    by (simp add: two_files_def)
  have "\<not> is_test_path ''src/app.py''" and "is_test_path ''tests/test_app.py''"
    by (simp_all add: is_test_path_def test_words_def)
  then show ?thesis
    using patches_split_by_path [of "served ''diff --git''" "''diff --git''" two_files, OF got files]
    by simp
qed

subsection \<open>Problem statement and commit urls\<close>

lemma issues_loop_none:
  "\<forall>j<length ns. get_issue (k + j) (ns ! j) = Inr None \<Longrightarrow>
   issues_loop parse_ts mktime_ts get_issue pull_commits issue_comments k ns vars = Inr vars"
proof (induction ns arbitrary: k)
  case Nil
  show ?case by simp
next
  case (Cons n ns)
  from Cons.prems have head: "get_issue k n = Inr None" by force
  have "\<forall>j<length ns. get_issue (Suc k + j) (ns ! j) = Inr None"
  proof (intro allI impI)
    fix j assume "j < length ns"
    then have "get_issue (k + Suc j) ((n # ns) ! Suc j) = Inr None"
      using Cons.prems by (metis Suc_less_eq length_Cons)
    then show "get_issue (Suc k + j) (ns ! j) = Inr None" by simp
  qed
  from Cons.IH [OF this] head show ?case by simp
qed

lemma issues_loop_last:
  "issues_loop parse_ts mktime_ts get_issue pull_commits issue_comments k ns vars = Inr vars' \<Longrightarrow>
   (case last_processed get_issue k ns of
      None \<Rightarrow> vars' = vars
    | Some (i, found) \<Rightarrow>
        (\<exists>single_hint single_all_hint urls.
           extract_hints parse_ts mktime_ts (pull_commits i) (issue_comments i (issue_number found))
             = Inr (single_hint, single_all_hint, urls)
           \<and> commit_urls vars' = Bound urls))"
proof (induction ns arbitrary: k vars)
  case Nil
  then show ?case by simp
next
  case (Cons n ns)
  show ?case
  proof (cases "get_issue k n")
    case (Inl e)
    with Cons.prems show ?thesis by simp
  next
    case (Inr reply)
    show ?thesis
    proof (cases reply)
      case None
      with Inr Cons.prems have
        "issues_loop parse_ts mktime_ts get_issue pull_commits issue_comments (Suc k) ns vars = Inr vars'"
        by simp
      from Cons.IH [OF this] Inr None show ?thesis
        by (auto split: option.splits)
    next
      case (Some data)
      show ?thesis
      proof (cases data)
        case None
        with Inr Some Cons.prems show ?thesis by simp
      next
        case (Some found)
        with Inr \<open>reply = Some data\<close> have reply: "get_issue k n = Inr (Some (Some found))"
          by simp
        show ?thesis
        proof (cases "extract_hints parse_ts mktime_ts (pull_commits k)
                        (issue_comments k (issue_number found))")
          case (Inl e)
          with reply Cons.prems show ?thesis by (simp add: Let_def)
        next
          case (Inr triple)
          obtain single_hint single_all_hint urls where
            triple: "triple = (single_hint, single_all_hint, urls)"
            by (cases triple) auto
          let ?vars = "\<lparr>problem_text = problem_text vars
                           @ (case issue_title found of Some t \<Rightarrow> t | None \<Rightarrow> []) @ newline
                           @ (case issue_body found of Some b \<Rightarrow> b | None \<Rightarrow> []) @ newline,
                         hint_text = hint_text vars @ single_hint @ newline @ newline,
                         all_hint_text = all_hint_text vars @ single_all_hint @ newline @ newline,
                         commit_urls = Bound urls\<rparr>"
          from reply Inr triple Cons.prems have
            "issues_loop parse_ts mktime_ts get_issue pull_commits issue_comments (Suc k) ns ?vars
               = Inr vars'"
            by (simp add: Let_def)
          from Cons.IH [OF this] reply Inr triple show ?thesis
            by (auto split: option.splits)
        qed
      qed
    qed
  qed
qed

text \<open>
  C10: for a repository not named \<open>django\<close>, when the list of resolved issues is empty or
  every \<open>get_issue\<close> returns \<open>None\<close>, the function raises \<open>UnboundLocalError\<close> (a
  \<open>NameError\<close>) at its \<open>return\<close>; and whenever it returns, the commit urls it returns are
  those that \<open>_extract_hints\<close> computed in the round of the last processed issue.
\<close>

theorem commit_urls_unbound_or_last:
  assumes "repo_name \<noteq> ''django''"
  shows "((\<forall>j<length resolved_issues. get_issue j (resolved_issues ! j) = Inr None) \<longrightarrow>
            extract_problem_statement_and_hints parse_ts mktime_ts get_issue pull_commits
              issue_comments django repo_name resolved_issues = Inl UnboundLocalError)
       \<and> (\<forall>problem hints all_hints urls.
            extract_problem_statement_and_hints parse_ts mktime_ts get_issue pull_commits
              issue_comments django repo_name resolved_issues
              = Inr (Hints problem hints all_hints urls) \<longrightarrow>
            (\<exists>i found single_hint single_all_hint.
               last_processed get_issue 0 resolved_issues = Some (i, found)
               \<and> extract_hints parse_ts mktime_ts (pull_commits i)
                     (issue_comments i (issue_number found))
                   = Inr (single_hint, single_all_hint, urls)))"
proof (intro conjI impI allI)
  let ?start = "\<lparr>problem_text = [], hint_text = [], all_hint_text = [], commit_urls = Unbound\<rparr>"
  assume "\<forall>j<length resolved_issues. get_issue j (resolved_issues ! j) = Inr None"
  then have "issues_loop parse_ts mktime_ts get_issue pull_commits issue_comments 0
      resolved_issues ?start = Inr ?start"
    using issues_loop_none [of resolved_issues get_issue 0] by simp
  with assms show "extract_problem_statement_and_hints parse_ts mktime_ts get_issue pull_commits
      issue_comments django repo_name resolved_issues = Inl UnboundLocalError"
    by (simp add: extract_problem_statement_and_hints_def)
next
  let ?start = "\<lparr>problem_text = [], hint_text = [], all_hint_text = [], commit_urls = Unbound\<rparr>"
  fix problem hints all_hints urls
  assume result: "extract_problem_statement_and_hints parse_ts mktime_ts get_issue pull_commits
      issue_comments django repo_name resolved_issues = Inr (Hints problem hints all_hints urls)"
  with assms obtain vars where
    loop: "issues_loop parse_ts mktime_ts get_issue pull_commits issue_comments 0
             resolved_issues ?start = Inr vars"
    and bound: "commit_urls vars = Bound urls"
    by (auto simp: extract_problem_statement_and_hints_def split: sum.splits variable.splits)
  from issues_loop_last [OF loop] bound
  show "\<exists>i found single_hint single_all_hint.
      last_processed get_issue 0 resolved_issues = Some (i, found)
      \<and> extract_hints parse_ts mktime_ts (pull_commits i) (issue_comments i (issue_number found))
          = Inr (single_hint, single_all_hint, urls)"
    by (cases "last_processed get_issue 0 resolved_issues") auto
qed

theorem commit_urls_unbound_or_last_witness:
  "extract_problem_statement_and_hints dateutil_timestamp (strptime_mktime 0) issue_found
     commits_by_round no_comments no_legacy ''flask'' [] = Inl UnboundLocalError
   \<and> extract_problem_statement_and_hints dateutil_timestamp (strptime_mktime 0) no_issue
     commits_by_round no_comments no_legacy ''flask'' [11, 12] = Inl UnboundLocalError
   \<and> extract_problem_statement_and_hints dateutil_timestamp (strptime_mktime 0) issue_found
     commits_by_round no_comments no_legacy ''flask'' [11, 12]
     = Inr (Hints (''t'' @ newline @ newline @ ''t'' @ newline @ newline)
              (newline @ newline @ newline @ newline) (newline @ newline @ newline @ newline)
              [''u1'', ''u2''])"
proof -
  have flask: "''flask'' \<noteq> ''django''" by simp
  have first: "extract_problem_statement_and_hints dateutil_timestamp (strptime_mktime 0)
      issue_found commits_by_round no_comments no_legacy ''flask'' [] = Inl UnboundLocalError"
    using commit_urls_unbound_or_last [OF flask, of "[]" issue_found dateutil_timestamp
        "strptime_mktime 0" commits_by_round no_comments no_legacy]
    by simp
  have "\<forall>j<length [11, 12 :: int]. no_issue j ([11, 12] ! j) = Inr None"
    by (simp add: no_issue_def)
  then have second: "extract_problem_statement_and_hints dateutil_timestamp (strptime_mktime 0)
      no_issue commits_by_round no_comments no_legacy ''flask'' [11, 12] = Inl UnboundLocalError"
    using commit_urls_unbound_or_last [OF flask, of "[11, 12]" no_issue dateutil_timestamp
        "strptime_mktime 0" commits_by_round no_comments no_legacy]
    by blast
  have third: "extract_problem_statement_and_hints dateutil_timestamp (strptime_mktime 0)
      issue_found commits_by_round no_comments no_legacy ''flask'' [11, 12]
     = Inr (Hints (''t'' @ newline @ newline @ ''t'' @ newline @ newline)
              (newline @ newline @ newline @ newline) (newline @ newline @ newline @ newline)
              [''u1'', ''u2''])"
    by (simp add: extract_problem_statement_and_hints_def issue_found_def commits_by_round_def
        no_comments_def extract_hints_def dateutil_timestamp_utc ts_0900)
  from first second third show ?thesis by blast
qed

section \<open>Properties of the GraphQL client\<close>

text \<open>
  A 403 answer makes \<open>call_api\<close> raise \<open>TypeError\<close> at the test \<open>rl > 0\<close>, before any sleep
  and before any retry; consequently no call ever hangs in the 403 branch.
\<close>

lemma try_block_never_polled_out: "try_block reply \<noteq> PolledOut"
proof -
  have "after_poll (poll_403 header) \<noteq> (PolledOut :: 'd pass)" for header
    by (cases header) (simp_all add: poll_403_def after_poll_def)
  then show ?thesis
    by (cases reply) (auto simp: Let_def split: sum.splits option.splits)
qed

lemma try_block_403:
  "status_code response = 403 \<Longrightarrow> try_block (Replied response) = Settled (Raised TypeError, [])"
  by (cases "rate_remaining response") (simp_all add: poll_403_def after_poll_def)

lemma call_api_403_raises:
  assumes "post n = Replied response" and "status_code response = 403"
  shows "call_api_from post max_retries n attempt = (Raised TypeError, [])"
proof -
  from assms have "try_block (post n) = Settled (Raised TypeError, [])"
    by (simp only: try_block_403)
  then show ?thesis
    by (subst call_api_from.simps) (simp only: pass.case)
qed

lemma try_block_never_hangs: "try_block reply \<noteq> Settled (Hangs, naps)"
proof -
  have "after_poll (poll_403 header) \<noteq> (Settled (Hangs, naps) :: 'd pass)" for header
    by (cases header) (simp_all add: poll_403_def after_poll_def)
  then show ?thesis
    by (cases reply) (auto simp: Let_def split: sum.splits option.splits)
qed

lemma call_api_never_hangs: "fst (call_api_from post max_retries n attempt) \<noteq> Hangs"
proof (induction post max_retries n attempt rule: call_api_from.induct)
  case (1 post max_retries n attempt)
  show ?case
  proof (cases "try_block (post n)")
    case (Settled result)
    with try_block_never_hangs [of "post n" "snd result"] have "fst result \<noteq> Hangs"
      by (cases result) auto
    with Settled show ?thesis
      by (subst call_api_from.simps) simp
  next
    case PolledOut
    then show ?thesis by (simp add: try_block_never_polled_out)
  next
    case Caught
    show ?thesis
    proof (cases "attempt < max_retries - 1")
      case True
      with Caught "1.IH" have
        "fst (call_api_from post max_retries (Suc n) (attempt + 1)) \<noteq> Hangs"
        by blast
      with Caught True show ?thesis
        by (subst call_api_from.simps) (auto split: prod.splits)
    next
      case False
      with Caught show ?thesis
        by (subst call_api_from.simps) simp
    qed
  qed
qed

text \<open>
  A response whose body is not JSON is handled as a connection failure unless its status
  is 403: the call tries again, and gives up with \<open>None\<close> when the attempts are used up.
\<close>

lemma call_api_not_json_retries:
  assumes "post n = RepliedNotJson status header" and "status \<noteq> 403"
  shows "call_api_from post max_retries n attempt =
     (if attempt < max_retries - 1
      then (case call_api_from post max_retries (Suc n) (attempt + 1) of
              (result, naps) \<Rightarrow> (result, 20 # naps))
      else (Returned None, []))"
  using assms by (subst call_api_from.simps) simp

lemma not_json_gives_up:
  "call_api bad_gateway 3 = (Returned None, [20, 20])"
  by (simp add: call_api_def bad_gateway_def call_api_not_json_retries)

text \<open>
  C9 says that on status 403 \<open>call_api\<close> polls the quota header every 5 minutes until it
  is positive, then retries, and does not raise. The code does not do so: a call answered
  with status 403 raises \<open>TypeError\<close>, with no sleep and no second request, whether the
  quota header says 0 or 4999.
\<close>

theorem forbidden_raises_evaluation:
  "call_api (forbidden 0) 10 = (Raised TypeError, [])
   \<and> call_api (forbidden 4999) 10 = (Raised TypeError, [])"
  by (simp add: call_api_def forbidden_def call_api_403_raises)

section \<open>Properties of the paginator\<close>

lemma page_step_empty:
  "empty_page api walk st \<Longrightarrow> page_step api walk num_pages quiet st = ([], Stop Finished)"
  by (auto simp: empty_page_def page_step_def Let_def split: outcome.splits option.splits)

lemma run_loop_round:
  "round_state i api walk num_pages quiet st = Some (yielded, st') \<Longrightarrow>
   run_loop (i + fuel) api walk num_pages quiet st =
     (case run_loop fuel api walk num_pages quiet st' of
        None \<Rightarrow> None
      | Some (later, e) \<Rightarrow> Some (yielded @ later, e))"
proof (induction i arbitrary: st yielded)
  case 0
  then show ?case by (simp split: option.splits)
next
  case (Suc i)
  obtain items next_step where step: "page_step api walk num_pages quiet st = (items, next_step)"
    by (cases "page_step api walk num_pages quiet st") auto
  show ?case
  proof (cases next_step)
    case (Stop e)
    with step Suc.prems show ?thesis by simp
  next
    case (Continue st1)
    with step Suc.prems obtain later where
      rest: "round_state i api walk num_pages quiet st1 = Some (later, st')"
      and yielded: "yielded = items @ later"
      by (auto split: option.splits)
    from Suc.IH [OF rest] step Continue yielded show ?thesis
      by (simp split: option.splits)
  qed
qed

text \<open>
  C8: when the page fetched in some round has an empty \<open>nodes\<close> list, that round yields
  nothing and ends the iteration, whatever the page bound, the \<open>quiet\<close> flag and the
  page's \<open>hasNextPage\<close> are; with more fuel than rounds before it, the generator
  finishes and has produced exactly the items of the earlier rounds.
\<close>

theorem empty_page_ends_iteration:
  assumes "round_state i api walk num_pages quiet initial_state = Some (yielded, st)"
    and "empty_page api walk st"
  shows "(\<forall>bound verbose. page_step api walk bound verbose st = ([], Stop Finished))
       \<and> (\<forall>fuel>i. get_all_loop fuel api walk num_pages quiet = Some (yielded, Finished))"
proof (intro conjI allI impI)
  fix bound verbose
  from assms(2) show "page_step api walk bound verbose st = ([], Stop Finished)"
    by (rule page_step_empty)
next
  fix fuel assume "i < fuel"
  then obtain extra where fuel: "fuel = i + Suc extra"
    by (metis add_Suc_right less_iff_Suc_add)
  have "run_loop (Suc extra) api walk num_pages quiet st = Some ([], Finished)"
    using page_step_empty [OF assms(2)] by simp
  with run_loop_round [OF assms(1), of "Suc extra"]
  show "get_all_loop fuel api walk num_pages quiet = Some (yielded, Finished)"
    unfolding fuel get_all_loop_def by simp
qed

theorem empty_page_ends_iteration_witness:
  "get_all_loop 2 two_pages Some None True = Some ([1, 2], Finished)
   \<and> get_all_loop 9 two_pages Some None True = Some ([1, 2], Finished)
   \<and> page_step two_pages Some (Some 5) False
        \<lparr>calls = 1, after = Some ''c1'', page = 2,
         response_var = Bound (Some \<lparr>status_code = 200, rate_remaining = Remaining 4000,
           payload = Some \<lparr>nodes = [1, 2], hasNextPage = True, endCursor = Some ''c1''\<rparr>\<rparr>)\<rparr>
      = ([], Stop Finished)"
proof -
  let ?st = "\<lparr>calls = 1, after = Some ''c1'', page = 2,
         response_var = Bound (Some \<lparr>status_code = 200, rate_remaining = Remaining 4000,
           payload = Some \<lparr>nodes = [1, 2 :: nat], hasNextPage = True, endCursor = Some ''c1''\<rparr>\<rparr>)\<rparr>"
  have reach: "round_state 1 two_pages Some None True initial_state = Some ([1, 2], ?st)"
    by (simp add: page_step_def two_pages_def initial_state_def)
  have empty: "empty_page two_pages Some ?st"
    by (simp add: empty_page_def two_pages_def)
  from empty_page_ends_iteration [OF reach empty] show ?thesis
    by simp
qed

end
